theory Spec2Isabelle
  imports Main
begin

section \<open>The Plex target of autoscan: library resolution and scan dispatch\<close>

text \<open>
  A shallow embedding of \<^verbatim>\<open>targets/plex/plex.go\<close>. Go strings are byte sequences and are
  modelled as \<open>string\<close> (a list of 8-bit characters). Go's \<open>error\<close> values are modelled by
  the datatype \<open>error\<close>; a function returning \<open>(T, error)\<close> returns \<open>error + T\<close>, a
  function returning only \<open>error\<close> returns \<open>error option\<close> (\<open>None\<close> is \<open>nil\<close>). Calls to the
  remote service change the world outside the program: they take a world \<open>'w\<close> and return
  the new one. Logging has no influence on any returned value and is left out.
\<close>

subsection \<open>Errors\<close>

text \<open>
  Modelled from the spec: \<open>ErrFatal\<close> is the sentinel \<^verbatim>\<open>autoscan.ErrFatal\<close>, declared
  outside \<^verbatim>\<open>plex.go\<close>: the tag of a fatal, non-retryable error. \<open>LibError\<close> is an error
  made by library or collaborator code (a kind and its arguments). \<open>Errorf fmt args\<close> is
  \<^verbatim>\<open>fmt.Errorf(fmt, args...)\<close> without a wrapped error, \<open>Errorf_w fmt args err\<close> is the same
  with \<open>err\<close> wrapped by the verb \<^verbatim>\<open>%w\<close>; the format string and the arguments are kept
  apart instead of being rendered.
\<close>

datatype error =
    ErrFatal
  | LibError string "string list"
  | Errorf string "string list"
  | Errorf_w string "string list" error

text \<open>\<^verbatim>\<open>errors.Is(err, target)\<close>: \<open>target\<close> is \<open>err\<close> or is found by unwrapping it.\<close>

fun errors_Is :: "error \<Rightarrow> error \<Rightarrow> bool" where
  "errors_Is (Errorf_w f args inner) target =
     (Errorf_w f args inner = target \<or> errors_Is inner target)"
| "errors_Is err target = (err = target)"

subsection \<open>Strings\<close>

text \<open>
  \<^verbatim>\<open>strings.HasPrefix(s, prefix)\<close> is
  \<^verbatim>\<open>len(s) >= len(prefix) && s[:len(prefix)] == prefix\<close>.
\<close>

definition HasPrefix :: "string \<Rightarrow> string \<Rightarrow> bool" where
  "HasPrefix s pre = (length pre \<le> length s \<and> take (length pre) s = pre)"

text \<open>
  \<^verbatim>\<open>strings.Split(s, sep)\<close> for a separator of one byte (the code splits on \<^verbatim>\<open>"."\<close>): the
  loop of \<^verbatim>\<open>genSplit\<close> cuts \<open>s\<close> at the first separator while there is one, and the
  rest is the last element.
\<close>

function Split :: "string \<Rightarrow> char \<Rightarrow> string list" where
  "Split s sep =
     (case dropWhile (\<lambda>c. c \<noteq> sep) s of
        [] \<Rightarrow> [s]
      | _ # rest \<Rightarrow> takeWhile (\<lambda>c. c \<noteq> sep) s # Split rest sep)"
  by pat_completeness auto
termination
proof (relation "measure (\<lambda>(s, sep). length s)")
  show "wf (measure (\<lambda>(s, sep). length s))" by simp
next
  fix s :: string and sep x rest
  assume "dropWhile (\<lambda>c. c \<noteq> sep) s = x # rest"
  moreover have "length (dropWhile (\<lambda>c. c \<noteq> sep) s) \<le> length s"
    by (rule length_dropWhile_le)
  ultimately show "((rest, sep), (s, sep)) \<in> measure (\<lambda>(s, sep). length s)"
    by simp
qed

declare Split.simps [simp del]

subsection \<open>Decimal integers: \<^verbatim>\<open>strconv.Atoi\<close>\<close>

text \<open>
  The bytes \<^verbatim>\<open>'0'\<close> to \<^verbatim>\<open>'9'\<close> and their values. \<open>int\<close> is taken to be 64 bits wide
  (\<^verbatim>\<open>strconv.IntSize = 64\<close>).
\<close>

definition isDigit :: "char \<Rightarrow> bool" where
  "isDigit c = (48 \<le> (of_char c :: nat) \<and> (of_char c :: nat) \<le> 57)"

definition digit :: "char \<Rightarrow> nat" where
  "digit c = of_char c - 48"

text \<open>The two errors of \<^verbatim>\<open>strconv\<close>: \<^verbatim>\<open>ErrSyntax\<close> and \<^verbatim>\<open>ErrRange\<close>.\<close>

datatype NumError = ErrSyntax | ErrRange

text \<open>
  The fast path of \<^verbatim>\<open>Atoi\<close>, taken for 1 to 18 bytes: the loop stops with a syntax error
  (\<open>None\<close>) at the first byte that is not a digit.
\<close>

fun Atoi_fast_loop :: "int \<Rightarrow> string \<Rightarrow> int option" where
  "Atoi_fast_loop n [] = Some n"
| "Atoi_fast_loop n (ch # s) =
     (if \<not> isDigit ch then None else Atoi_fast_loop (n * 10 + int (digit ch)) s)"

definition maxUint64 :: nat where
  "maxUint64 = 2 ^ 64 - 1"

text \<open>
  The loop of \<^verbatim>\<open>ParseUint(s, 10, 0)\<close>. It looks at one byte at a time: a byte that is not
  a digit is a syntax error with value 0, and an overflow of 64 bits is a range error
  with the maximal value. The overflow is reported at the digit where it happens, before
  the bytes after that digit are looked at.
\<close>

fun ParseUint_loop :: "nat \<Rightarrow> string \<Rightarrow> nat \<times> NumError option" where
  "ParseUint_loop n [] = (n, None)"
| "ParseUint_loop n (c # s) =
     (if \<not> isDigit c then (0, Some ErrSyntax)
      else if n \<ge> maxUint64 div 10 + 1 then (maxUint64, Some ErrRange)
      else let n1 = n * 10 + digit c
           in if n1 > maxUint64 then (maxUint64, Some ErrRange)
              else ParseUint_loop n1 s)"

definition ParseUint :: "string \<Rightarrow> nat \<times> NumError option" where
  "ParseUint s = (if s = [] then (0, Some ErrSyntax) else ParseUint_loop 0 s)"

text \<open>
  \<^verbatim>\<open>ParseInt(s, 10, 0)\<close>: the sign is taken off, a syntax error of \<^verbatim>\<open>ParseUint\<close> is passed
  on with value 0, and a value outside 64 bits is a range error with the nearest bound.
\<close>

definition ParseInt :: "string \<Rightarrow> int \<times> NumError option" where
  "ParseInt s =
     (if s = [] then (0, Some ErrSyntax)
      else let neg = (hd s = CHR ''-'');
               s1 = (if hd s = CHR ''+'' \<or> hd s = CHR ''-'' then tl s else s)
           in case ParseUint s1 of
                (un, Some ErrSyntax) \<Rightarrow> (0, Some ErrSyntax)
              | (un, _) \<Rightarrow>
                  let cutoff = (2 :: nat) ^ 63
                  in if \<not> neg \<and> un \<ge> cutoff then (int cutoff - 1, Some ErrRange)
                     else if neg \<and> un > cutoff then (- int cutoff, Some ErrRange)
                     else (if neg then - int un else int un, None))"

definition Atoi :: "string \<Rightarrow> int \<times> NumError option" where
  "Atoi s =
     (if 0 < length s \<and> length s < 19
      then let signed = (hd s = CHR ''-'' \<or> hd s = CHR ''+'');
               s1 = (if signed then tl s else s)
           in if signed \<and> length s1 < 1 then (0, Some ErrSyntax)
              else (case Atoi_fast_loop 0 s1 of
                      None \<Rightarrow> (0, Some ErrSyntax)
                    | Some n \<Rightarrow> (if hd s = CHR ''-'' then - n else n, None))
      else ParseInt s)"

subsection \<open>Library functions taken as parameters\<close>

text \<open>
  Of \<^verbatim>\<open>net/url.URL\<close> only the field \<open>Host\<close> is read (the host, with the port when the URL
  has one).
\<close>

record url_URL =
  Host :: string

text \<open>
  Four functions of the Go library are parameters of the model, so everything proved
  holds whatever they return:
  \<^item> \<open>url_Parse\<close> is \<^verbatim>\<open>url.Parse\<close>;
  \<^item> \<open>TrimFunc_IsSpace s\<close> is \<^verbatim>\<open>strings.TrimFunc(s, unicode.IsSpace)\<close> and
    \<open>TrimRightFunc_IsSpace s\<close> is \<^verbatim>\<open>strings.TrimRightFunc(s, unicode.IsSpace)\<close>, which
    \<^verbatim>\<open>TrimSpace\<close> calls when it meets a byte outside ASCII;
  \<^item> \<open>float_fraction f unit k\<close> is the floating-point expression
    \<^verbatim>\<open>uint64(float64(f) * (float64(unit) / scale))\<close> of \<^verbatim>\<open>time.ParseDuration\<close>, where
    \<open>scale\<close> is \<open>10 ^ k\<close>.
\<close>

record stdlib =
  url_Parse :: "string \<Rightarrow> error + url_URL"
  TrimFunc_IsSpace :: "string \<Rightarrow> string"
  TrimRightFunc_IsSpace :: "string \<Rightarrow> string"
  float_fraction :: "nat \<Rightarrow> nat \<Rightarrow> nat \<Rightarrow> nat"

subsection \<open>\<^verbatim>\<open>strings.TrimSpace\<close> and \<^verbatim>\<open>strings.TrimPrefix\<close>\<close>

text \<open>The table \<^verbatim>\<open>asciiSpace\<close>: tab, line feed, vertical tab, form feed, carriage return, space.\<close>

definition asciiSpace :: "char \<Rightarrow> bool" where
  "asciiSpace c =
     (c = CHR 0x09 \<or> c = CHR 0x0A \<or> c = CHR 0x0B \<or> c = CHR 0x0C \<or> c = CHR 0x0D \<or> c = CHR 0x20)"

definition RuneSelf :: nat where
  "RuneSelf = 0x80"

text \<open>
  \<^verbatim>\<open>TrimSpace\<close>: the first loop skips ASCII space from the left; at a byte outside ASCII
  it hands the rest to \<^verbatim>\<open>TrimFunc\<close>. The second loop skips ASCII space from the right; at
  a byte outside ASCII it hands what is left to \<^verbatim>\<open>TrimRightFunc\<close>.
\<close>

definition TrimSpace :: "stdlib \<Rightarrow> string \<Rightarrow> string" where
  "TrimSpace std s =
     (case dropWhile asciiSpace s of
        [] \<Rightarrow> []
      | c # rest \<Rightarrow>
          if of_char c \<ge> RuneSelf then TrimFunc_IsSpace std (c # rest)
          else (case dropWhile asciiSpace (rev (c # rest)) of
                  [] \<Rightarrow> []
                | d # front \<Rightarrow>
                    if of_char d \<ge> RuneSelf then TrimRightFunc_IsSpace std (rev (d # front))
                    else rev (d # front)))"

definition TrimPrefix :: "string \<Rightarrow> string \<Rightarrow> string" where
  "TrimPrefix s pre = (if HasPrefix s pre then drop (length pre) s else s)"

subsection \<open>\<^verbatim>\<open>time.ParseDuration\<close>\<close>

text \<open>
  A duration is a number of nanoseconds in 64 bits, modelled as \<open>int\<close>; the unsigned
  64-bit accumulators of the parser are \<open>nat\<close> with the wrap-around written out where a
  sum can reach \<open>2 ^ 64\<close>.
\<close>

definition unitMap :: "string \<Rightarrow> nat option" where
  "unitMap u =
     (if u = ''ns'' then Some 1
      else if u = ''us'' then Some 1000
      else if u = [CHR 0xC2, CHR 0xB5, CHR ''s''] then Some 1000
      else if u = [CHR 0xCE, CHR 0xBC, CHR ''s''] then Some 1000
      else if u = ''ms'' then Some 1000000
      else if u = ''s'' then Some 1000000000
      else if u = ''m'' then Some 60000000000
      else if u = ''h'' then Some 3600000000000
      else None)"

text \<open>\<^verbatim>\<open>leadingInt\<close>: the leading digits and the rest; \<open>None\<close> is the overflow error.\<close>

fun leadingInt :: "nat \<Rightarrow> string \<Rightarrow> (nat \<times> string) option" where
  "leadingInt x [] = Some (x, [])"
| "leadingInt x (c # s) =
     (if \<not> isDigit c then Some (x, c # s)
      else if x > 2 ^ 63 div 10 then None
      else let x' = x * 10 + digit c
           in if x' > 2 ^ 63 then None else leadingInt x' s)"

text \<open>
  \<^verbatim>\<open>leadingFraction\<close>: the digits after the point as a number \<open>x\<close> and the count \<open>k\<close> of
  the digits taken into it (the scale is \<open>10 ^ k\<close>), and the rest. Digits after an
  overflow are skipped.
\<close>

fun leadingFraction :: "nat \<Rightarrow> nat \<Rightarrow> bool \<Rightarrow> string \<Rightarrow> nat \<times> nat \<times> string" where
  "leadingFraction x k overflow [] = (x, k, [])"
| "leadingFraction x k overflow (c # s) =
     (if \<not> isDigit c then (x, k, c # s)
      else if overflow then leadingFraction x k True s
      else if x > (2 ^ 63 - 1) div 10 then leadingFraction x k True s
      else let y = x * 10 + digit c
           in if y > 2 ^ 63 then leadingFraction x k True s
              else leadingFraction y (Suc k) False s)"

definition invalid_duration :: "string \<Rightarrow> error" where
  "invalid_duration orig = LibError ''time: invalid duration'' [orig]"

text \<open>
  One round of the loop of \<^verbatim>\<open>ParseDuration\<close> on a non-empty \<open>s\<close>: a number, an optional
  fraction and a unit. The result is the value in nanoseconds and the rest of \<open>s\<close>.
\<close>

definition ParseDuration_step :: "stdlib \<Rightarrow> string \<Rightarrow> string \<Rightarrow> error + (nat \<times> string)" where
  "ParseDuration_step std orig s =
     (if \<not> (hd s = CHR ''.'' \<or> isDigit (hd s)) then Inl (invalid_duration orig)
      else case leadingInt 0 s of
        None \<Rightarrow> Inl (invalid_duration orig)
      | Some (v, s1) \<Rightarrow>
          let pre = (length s \<noteq> length s1);
              (f, k, s2, post) =
                (if s1 \<noteq> [] \<and> hd s1 = CHR ''.''
                 then (case leadingFraction 0 0 False (tl s1) of
                         (f, k, r) \<Rightarrow> (f, k, r, length (tl s1) \<noteq> length r))
                 else (0, 0, s1, False))
          in if \<not> pre \<and> \<not> post then Inl (invalid_duration orig)
             else let u = takeWhile (\<lambda>c. \<not> (c = CHR ''.'' \<or> isDigit c)) s2;
                      s3 = dropWhile (\<lambda>c. \<not> (c = CHR ''.'' \<or> isDigit c)) s2
                  in if u = [] then Inl (LibError ''time: missing unit in duration'' [orig])
                     else case unitMap u of
                       None \<Rightarrow> Inl (LibError ''time: unknown unit in duration'' [u, orig])
                     | Some unit \<Rightarrow>
                         if v > 2 ^ 63 div unit then Inl (invalid_duration orig)
                         else let v1 = v * unit
                              in if f > 0
                                 then (let v2 = (v1 + float_fraction std f unit k) mod 2 ^ 64
                                       in if v2 > 2 ^ 63 then Inl (invalid_duration orig)
                                          else Inr (v2, s3))
                                 else Inr (v1, s3))"

lemma leadingInt_length: "leadingInt x s = Some (v, r) \<Longrightarrow> length r \<le> length s"
proof (induction s arbitrary: x)
  case Nil
  then show ?case by simp
next
  case (Cons c s)
  show ?case
  proof (cases "isDigit c")
    case False
    with Cons.prems show ?thesis by simp
  next
    case True
    with Cons.prems have "leadingInt (x * 10 + digit c) s = Some (v, r)"
      by (simp add: Let_def split: if_splits)
    then have "length r \<le> length s" by (rule Cons.IH)
    then show ?thesis by simp
  qed
qed

lemma leadingFraction_length:
  "leadingFraction x k overflow s = (f, k', r) \<Longrightarrow> length r \<le> length s"
proof (induction s arbitrary: x k overflow)
  case Nil
  then show ?case by simp
next
  case (Cons c s)
  show ?case
  proof (cases "isDigit c")
    case False
    with Cons.prems show ?thesis by simp
  next
    case True
    with Cons.prems obtain x1 k1 o1 where "leadingFraction x1 k1 o1 s = (f, k', r)"
      by (auto simp: Let_def split: if_splits)
    then have "length r \<le> length s" by (rule Cons.IH)
    then show ?thesis by simp
  qed
qed

lemma dropWhile_shorter:
  assumes "takeWhile P xs \<noteq> []"
  shows "length (dropWhile P xs) < length xs"
proof -
  have "length xs = length (takeWhile P xs) + length (dropWhile P xs)"
    by (metis length_append takeWhile_dropWhile_id)
  with assms show ?thesis by simp
qed

lemma ParseDuration_step_length:
  assumes "ParseDuration_step std orig s = Inr (v, rest)"
  shows "length rest < length s"
proof -
  let ?P = "\<lambda>c. \<not> (c = CHR ''.'' \<or> isDigit c)"
  from assms obtain v0 s1 where li: "leadingInt 0 s = Some (v0, s1)"
    by (auto simp: ParseDuration_step_def split: if_splits option.splits)
  then have l1: "length s1 \<le> length s"
    by (rule leadingInt_length)
  define frac where "frac =
     (if s1 \<noteq> [] \<and> hd s1 = CHR ''.''
      then (case leadingFraction 0 0 False (tl s1) of
              (f, k, r) \<Rightarrow> (f, k, r, length (tl s1) \<noteq> length r))
      else (0, 0, s1, False))"
  obtain f k s2 post where fr: "frac = (f, k, s2, post)"
    by (cases frac) auto
  have l2: "length s2 \<le> length s1"
  proof (cases "s1 \<noteq> [] \<and> hd s1 = CHR ''.''")
    case True
    obtain f' k' r where lf: "leadingFraction 0 0 False (tl s1) = (f', k', r)"
      by (cases "leadingFraction 0 0 False (tl s1)") auto
    then have "length r \<le> length (tl s1)"
      by (rule leadingFraction_length)
    moreover have "s2 = r"
      using True lf fr by (simp add: frac_def)
    ultimately show ?thesis by simp
  next
    case False
    then have "s2 = s1"
      using fr by (auto simp: frac_def)
    then show ?thesis by simp
  qed
  from assms li fr have "takeWhile ?P s2 \<noteq> [] \<and> rest = dropWhile ?P s2"
    by (auto simp: ParseDuration_step_def frac_def [symmetric] Let_def
        split: if_splits option.splits)
  then have "length rest < length s2"
    by (simp add: dropWhile_shorter)
  with l1 l2 show ?thesis by simp
qed

function ParseDuration_loop :: "stdlib \<Rightarrow> string \<Rightarrow> nat \<Rightarrow> string \<Rightarrow> error + nat" where
  "ParseDuration_loop std orig d s =
     (if s = [] then Inr d
      else case ParseDuration_step std orig s of
        Inl err \<Rightarrow> Inl err
      | Inr (v, rest) \<Rightarrow>
          let d' = (d + v) mod 2 ^ 64
          in if d' > 2 ^ 63 then Inl (invalid_duration orig)
             else ParseDuration_loop std orig d' rest)"
  by pat_completeness auto
termination
proof (relation "measure (\<lambda>(std, orig, d, s). length s)")
  show "wf (measure (\<lambda>(std, orig, d, s). length s))" by simp
next
  fix std orig d s x v rest d'
  assume "ParseDuration_step std orig s = Inr x" and "(v, rest) = x"
  then have "length rest < length s"
    by (auto dest: ParseDuration_step_length)
  then show "((std, orig, d', rest), (std, orig, d, s))
               \<in> measure (\<lambda>(std, orig, d, s). length s)"
    by simp
qed

declare ParseDuration_loop.simps [simp del]

definition ParseDuration :: "stdlib \<Rightarrow> string \<Rightarrow> error + int" where
  "ParseDuration std s =
     (let orig = s;
          neg = (s \<noteq> [] \<and> hd s = CHR ''-'');
          s1 = (if s \<noteq> [] \<and> (hd s = CHR ''-'' \<or> hd s = CHR ''+'') then tl s else s)
      in if s1 = ''0'' then Inr 0
         else if s1 = [] then Inl (invalid_duration orig)
         else case ParseDuration_loop std orig 0 s1 of
           Inl err \<Rightarrow> Inl err
         | Inr d \<Rightarrow>
             if neg then Inr (- int d)
             else if d > 2 ^ 63 - 1 then Inl (invalid_duration orig)
             else Inr (int d))"

subsection \<open>Data\<close>

text \<open>
  Modelled from the spec: the type \<^verbatim>\<open>library\<close> is declared outside \<^verbatim>\<open>plex.go\<close>, which reads
  its fields \<^verbatim>\<open>ID\<close>, \<^verbatim>\<open>Name\<close> and \<^verbatim>\<open>Path\<close>. A library has an identifier that is opaque
  to this code (its type is a parameter), a name for diagnostics, and the path of its
  root.
\<close>

record 'id library =
  ID :: 'id
  Name :: string
  Path :: string

text \<open>
  Modelled from the spec: the client of the remote service, \<^verbatim>\<open>apiClient\<close>, is defined
  outside \<^verbatim>\<open>plex.go\<close>, which calls its methods \<^verbatim>\<open>Version\<close>, \<^verbatim>\<open>Libraries\<close> and \<^verbatim>\<open>Scan\<close>. Each
  one talks to the remote service and returns a result or an error, so each takes the
  world and returns the new one. The methods are fields, so every property below holds
  for every client.
\<close>

record ('id, 'w) apiClient =
  api_Version :: "'w \<Rightarrow> (error + string) \<times> 'w"
  api_Libraries :: "'w \<Rightarrow> (error + 'id library list) \<times> 'w"
  api_Scan :: "string \<Rightarrow> 'id \<Rightarrow> 'w \<Rightarrow> error option \<times> 'w"

record ('id, 'w) target =
  url :: string
  token :: string
  libraries :: "'id library list"
  rewrite :: "string \<Rightarrow> string"
  api :: "('id, 'w) apiClient"

text \<open>
  The configuration. The type of a rewrite rule (\<^verbatim>\<open>autoscan.Rewrite\<close>) is a parameter.
\<close>

record 'r Config =
  URL :: string
  Token :: string
  Rewrite :: "'r list"
  Verbosity :: string
  Timeout :: string
  Product :: string
  ClientIdentifier :: string

text \<open>
  The two constructors \<^verbatim>\<open>New\<close> calls that are defined outside \<^verbatim>\<open>plex.go\<close> are
  parameters: \<^verbatim>\<open>autoscan.NewRewriter\<close>, which gives the path rewriter or an error, and
  \<^verbatim>\<open>newAPIClient\<close> with its arguments URL, token, timeout, product and client identifier
  (the logger is left out).
\<close>

record ('r, 'id, 'w) collaborators =
  NewRewriter :: "'r list \<Rightarrow> error + (string \<Rightarrow> string)"
  newAPIClient :: "string \<Rightarrow> string \<Rightarrow> int \<Rightarrow> string \<Rightarrow> string \<Rightarrow> ('id, 'w) apiClient"

text \<open>
  Modelled from the spec: the scan event \<^verbatim>\<open>autoscan.Scan\<close> is declared outside
  \<^verbatim>\<open>plex.go\<close>; only its folder is read here.
\<close>

record autoscan_Scan =
  Folder :: string

subsection \<open>Library resolution\<close>

text \<open>The loop of \<^verbatim>\<open>getScanLibrary\<close>: \<open>acc\<close> is the slice the loop appends to.\<close>

fun getScanLibrary_loop ::
  "string \<Rightarrow> 'id library list \<Rightarrow> 'id library list \<Rightarrow> 'id library list" where
  "getScanLibrary_loop folder [] acc = acc"
| "getScanLibrary_loop folder (l # ls) acc =
     (if HasPrefix folder (Path l)
      then getScanLibrary_loop folder ls (acc @ [l])
      else getScanLibrary_loop folder ls acc)"

definition getScanLibrary ::
  "('id, 'w) target \<Rightarrow> string \<Rightarrow> error + 'id library list" where
  "getScanLibrary t folder =
     (let libs = getScanLibrary_loop folder (libraries t) []
      in if length libs = 0
         then Inl (Errorf ''%v: failed determining libraries'' [folder])
         else Inr libs)"

subsection \<open>Scan dispatch\<close>

text \<open>
  The loop of \<^verbatim>\<open>Scan\<close> over the resolved libraries: the first trigger that returns an
  error ends the loop and is returned.
\<close>

fun Scan_loop ::
  "('id, 'w) target \<Rightarrow> string \<Rightarrow> 'id library list \<Rightarrow> 'w \<Rightarrow> error option \<times> 'w" where
  "Scan_loop t scanFolder [] w = (None, w)"
| "Scan_loop t scanFolder (lib # libs) w =
     (case api_Scan (api t) scanFolder (ID lib) w of
        (Some err, w') \<Rightarrow> (Some err, w')
      | (None, w') \<Rightarrow> Scan_loop t scanFolder libs w')"

definition Scan :: "('id, 'w) target \<Rightarrow> autoscan_Scan \<Rightarrow> 'w \<Rightarrow> error option \<times> 'w" where
  "Scan t scan w =
     (let scanFolder = rewrite t (Folder scan)
      in case getScanLibrary t scanFolder of
           Inl err \<Rightarrow> (None, w)
         | Inr libs \<Rightarrow> Scan_loop t scanFolder libs w)"

subsection \<open>The version gate\<close>

definition isSupportedVersion :: "string \<Rightarrow> bool" where
  "isSupportedVersion version =
     (let parts = Split version (CHR ''.'')
      in if length parts < 2 then False
         else let major = fst (Atoi (parts ! 0));
                  minor = fst (Atoi (parts ! 1))
              in if major \<ge> 2 \<or> (major = 1 \<and> minor \<ge> 20) then True else False)"

text \<open>
  The version gate in the words of the specification: a component is read as an
  integer, an optional sign followed by decimal digits, and a component that is not of
  that form counts as 0.
\<close>

definition decimal :: "nat \<Rightarrow> string \<Rightarrow> nat" where
  "decimal n s = foldl (\<lambda>a c. a * 10 + digit c) n s"

definition strip_sign :: "string \<Rightarrow> string" where
  "strip_sign s = (if s \<noteq> [] \<and> (hd s = CHR ''+'' \<or> hd s = CHR ''-'') then tl s else s)"

definition is_integer :: "string \<Rightarrow> bool" where
  "is_integer s = (strip_sign s \<noteq> [] \<and> list_all isDigit (strip_sign s))"

definition parse_or_zero :: "string \<Rightarrow> int" where
  "parse_or_zero s =
     (if is_integer s
      then (if hd s = CHR ''-'' then - int (decimal 0 (strip_sign s))
            else int (decimal 0 (strip_sign s)))
      else 0)"

definition spec_isSupportedVersion :: "string \<Rightarrow> bool" where
  "spec_isSupportedVersion version =
     (let parts = Split version (CHR ''.'')
      in 2 \<le> length parts
         \<and> (let major = parse_or_zero (parts ! 0);
                minor = parse_or_zero (parts ! 1)
            in major \<ge> 2 \<or> (major = 1 \<and> minor \<ge> 20)))"

text \<open>
  A component whose leading digits, after the sign, already exceed 64 bits: \<^verbatim>\<open>Atoi\<close>
  reports the overflow before it reaches a later byte that is not a digit.
\<close>

definition digits_overflow :: "string \<Rightarrow> bool" where
  "digits_overflow s = (decimal 0 (takeWhile isDigit (strip_sign s)) > maxUint64)"

text \<open>Saturation to the range of a 64-bit signed integer.\<close>

definition sat64 :: "int \<Rightarrow> int" where
  "sat64 i = max (- (2 ^ 63)) (min (2 ^ 63 - 1) i)"

text \<open>
  What the gate reads from a component once the error of \<^verbatim>\<open>Atoi\<close> is thrown away, up to
  saturation: the integer it denotes, 0 when it denotes none, except that a component
  that denotes no integer but overflows in its leading digits gives the bound of the
  64-bit range on the side of its sign.
\<close>

definition atoi_or_zero :: "string \<Rightarrow> int" where
  "atoi_or_zero p =
     (if \<not> is_integer p \<and> digits_overflow p
      then (if hd p = CHR ''-'' then - (2 ^ 63) else 2 ^ 63 - 1)
      else parse_or_zero p)"

subsection \<open>Construction\<close>

definition parseTimeout :: "stdlib \<Rightarrow> string \<Rightarrow> error + int" where
  "parseTimeout std raw =
     (if TrimSpace std raw = '''' then Inr 0
      else case ParseDuration std raw of
        Inl err \<Rightarrow> Inl (Errorf_w ''invalid plex timeout %q: %w'' [raw] err)
      | Inr timeout \<Rightarrow>
          if timeout \<le> 0
          then Inl (Errorf ''invalid plex timeout %q: must be greater than zero'' [raw])
          else Inr timeout)"

definition defaultClientIdentifier :: "stdlib \<Rightarrow> string \<Rightarrow> string" where
  "defaultClientIdentifier std rawURL =
     (case url_Parse std rawURL of
        Inl err \<Rightarrow> ''autoscan''
      | Inr parsed \<Rightarrow>
          if Host parsed = '''' then ''autoscan''
          else let host = TrimPrefix (Host parsed) ''www.''
               in if host = '''' then ''autoscan''
                  else ''autoscan-'' @ host)"

text \<open>
  The second half of \<^verbatim>\<open>New\<close> (lines 62 to 89), from the version query on: the gate, the
  fetch of the catalog, and the target.
\<close>

definition New_connect ::
  "'r Config \<Rightarrow> (string \<Rightarrow> string) \<Rightarrow> ('id, 'w) apiClient \<Rightarrow> 'w \<Rightarrow>
   (error + ('id, 'w) target) \<times> 'w" where
  "New_connect c rewriter client w =
     (case api_Version client w of
        (Inl err, w1) \<Rightarrow> (Inl err, w1)
      | (Inr version, w1) \<Rightarrow>
          if \<not> isSupportedVersion version
          then (Inl (Errorf_w ''plex running unsupported version %s: %w'' [version] ErrFatal), w1)
          else (case api_Libraries client w1 of
                  (Inl err, w2) \<Rightarrow> (Inl err, w2)
                | (Inr libs, w2) \<Rightarrow>
                    (Inr \<lparr>url = URL c, token = Token c, libraries = libs,
                          rewrite = rewriter, api = client\<rparr>, w2)))"

text \<open>
  \<^verbatim>\<open>New\<close>: the rewriter, the timeout, the defaults of the product and of the client
  identifier, the client, and then the second half.
\<close>

definition New ::
  "('r, 'id, 'w) collaborators \<Rightarrow> stdlib \<Rightarrow> 'r Config \<Rightarrow> 'w \<Rightarrow>
   (error + ('id, 'w) target) \<times> 'w" where
  "New col std c w =
     (case NewRewriter col (Rewrite c) of
        Inl err \<Rightarrow> (Inl err, w)
      | Inr rewriter \<Rightarrow>
          (case parseTimeout std (Timeout c) of
             Inl err \<Rightarrow> (Inl err, w)
           | Inr timeout \<Rightarrow>
               let product = (if TrimSpace std (Product c) = '''' then ''autoscan''
                              else Product c);
                   clientIdentifier =
                     (if TrimSpace std (ClientIdentifier c) = ''''
                      then defaultClientIdentifier std (URL c)
                      else ClientIdentifier c);
                   client = newAPIClient col (URL c) (Token c) timeout product clientIdentifier
               in New_connect c rewriter client w))"

text \<open>\<^verbatim>\<open>Available\<close>: a version query whose error, if any, is returned.\<close>

definition Available :: "('id, 'w) target \<Rightarrow> 'w \<Rightarrow> error option \<times> 'w" where
  "Available t w =
     (case api_Version (api t) w of
        (Inl err, w1) \<Rightarrow> (Some err, w1)
      | (Inr version, w1) \<Rightarrow> (None, w1))"

subsection \<open>A remote service that records its triggers\<close>

text \<open>
  Modelled from the spec: the scan trigger of the remote service, a request for one
  path and one library that is answered by success or by an error. To tell which
  triggers \<open>Scan\<close> issues, the world of this remote service is the list of the scan
  triggers issued so far, oldest first; the outcome of a trigger may depend on the whole
  history and on the call, so every deterministic remote service is of this form.
\<close>

definition remote_Scan ::
  "((string \<times> 'id) list \<Rightarrow> string \<times> 'id \<Rightarrow> error option) \<Rightarrow>
   string \<Rightarrow> 'id \<Rightarrow> (string \<times> 'id) list \<Rightarrow> error option \<times> (string \<times> 'id) list" where
  "remote_Scan outcome path lib_id history =
     (outcome history (path, lib_id), history @ [(path, lib_id)])"


text \<open>
  A target over the recording remote service, with the identity as path rewriter; its
  catalog and the outcomes of the triggers are given.
\<close>

definition recording_target ::
  "nat library list \<Rightarrow> ((string \<times> nat) list \<Rightarrow> string \<times> nat \<Rightarrow> error option) \<Rightarrow>
   (nat, (string \<times> nat) list) target" where
  "recording_target catalog outcome =
     \<lparr>url = ''http://localhost:32400'', token = ''token'', libraries = catalog,
      rewrite = (\<lambda>p. p),
      api = \<lparr>api_Version = (\<lambda>h. (Inr ''1.32.5'', h)),
             api_Libraries = (\<lambda>h. (Inr catalog, h)),
             api_Scan = remote_Scan outcome\<rparr>\<rparr>"

text \<open>A catalog with nested and disjoint library roots, used in the examples below.\<close>

definition example_catalog :: "nat library list" where
  "example_catalog =
     [\<lparr>ID = 1, Name = ''Movies'', Path = ''/data/movies''\<rparr>,
      \<lparr>ID = 2, Name = ''TV'', Path = ''/data/tv''\<rparr>,
      \<lparr>ID = 3, Name = ''Kids'', Path = ''/data/movies/kids''\<rparr>,
      \<lparr>ID = 4, Name = ''All'', Path = ''/data''\<rparr>]"

text \<open>
  Library parameters for the examples: a URL parser that knows the URLs of the examples
  and fails on every other string, with the hosts \<^verbatim>\<open>url.Parse\<close> gives for them; the
  parameters for bytes outside ASCII and for fractions of a duration are not reached by
  the examples.
\<close>

definition example_stdlib :: stdlib where
  "example_stdlib =
     \<lparr>url_Parse = (\<lambda>raw.
        if raw = ''https://www.example.com:32400'' then Inr \<lparr>Host = ''www.example.com:32400''\<rparr>
        else if raw = ''http://localhost:32400'' then Inr \<lparr>Host = ''localhost:32400''\<rparr>
        else if raw = ''http://www.'' then Inr \<lparr>Host = ''www.''\<rparr>
        else if raw = ''plex'' then Inr \<lparr>Host = ''''\<rparr>
        else Inl (LibError ''parse: missing protocol scheme'' [raw])),
      TrimFunc_IsSpace = (\<lambda>s. s),
      TrimRightFunc_IsSpace = (\<lambda>s. s),
      float_fraction = (\<lambda>f unit k. 0)\<rparr>"

text \<open>
  Collaborators for the examples: rewrite rules are not used (the rewriter is the
  identity), and every client is the recording remote service, reporting the given
  version and catalog.
\<close>

definition example_collaborators ::
  "string \<Rightarrow> nat library list \<Rightarrow> (unit, nat, (string \<times> nat) list) collaborators" where
  "example_collaborators version catalog =
     \<lparr>NewRewriter = (\<lambda>rules. Inr (\<lambda>p. p)),
      newAPIClient = (\<lambda>u tok timeout product clientIdentifier.
        \<lparr>api_Version = (\<lambda>h. (Inr version, h)),
         api_Libraries = (\<lambda>h. (Inr catalog, h)),
         api_Scan = remote_Scan (\<lambda>h c. None)\<rparr>)\<rparr>"

definition example_config :: "unit Config" where
  "example_config =
     \<lparr>URL = ''https://www.example.com:32400'', Token = ''token'', Rewrite = [],
      Verbosity = '''', Timeout = ''5s'', Product = '''', ClientIdentifier = ''''\<rparr>"

section \<open>Properties\<close>

subsection \<open>Library resolution\<close>

lemma getScanLibrary_loop_filter:
  "getScanLibrary_loop folder ls acc = acc @ filter (\<lambda>l. HasPrefix folder (Path l)) ls"
  by (induction ls arbitrary: acc) simp_all

lemma HasPrefix_append: "HasPrefix s pre \<longleftrightarrow> (\<exists>rest. s = pre @ rest)"
proof
  assume "HasPrefix s pre"
  then have "s = pre @ drop (length pre) s"
    by (metis HasPrefix_def append_take_drop_id)
  then show "\<exists>rest. s = pre @ rest" ..
next
  assume "\<exists>rest. s = pre @ rest"
  then show "HasPrefix s pre"
    by (auto simp: HasPrefix_def)
qed

lemma getScanLibrary_Inr_iff:
  "getScanLibrary t folder = Inr libs \<longleftrightarrow>
     libs = filter (\<lambda>l. HasPrefix folder (Path l)) (libraries t) \<and> libs \<noteq> []"
  by (auto simp: getScanLibrary_def getScanLibrary_loop_filter Let_def)

lemma getScanLibrary_Inl_iff:
  "(\<exists>err. getScanLibrary t folder = Inl err) \<longleftrightarrow>
     filter (\<lambda>l. HasPrefix folder (Path l)) (libraries t) = []"
  by (auto simp: getScanLibrary_def getScanLibrary_loop_filter Let_def)

lemma getScanLibrary_member:
  "(\<exists>libs. getScanLibrary t folder = Inr libs \<and> L \<in> set libs) \<longleftrightarrow>
     L \<in> set (libraries t) \<and> HasPrefix folder (Path L)"
  by (auto simp: getScanLibrary_Inr_iff filter_empty_conv)

lemma HasPrefix_bytes:
  "HasPrefix s pre \<longleftrightarrow> length pre \<le> length s \<and> (\<forall>i<length pre. s ! i = pre ! i)"
  by (auto simp: HasPrefix_def list_eq_iff_nth_eq)

text \<open>
  Claim C1. For every folder \<open>F\<close> and every library \<open>L\<close> of the target's catalog, the
  result of resolving \<open>F\<close> includes \<open>L\<close> if and only if \<open>F\<close> starts with the path of \<open>L\<close>
  as a raw string: \<open>F\<close> is at least as long and agrees with the path byte by byte. No
  path separator is looked at, so a library rooted at \<^verbatim>\<open>/media/Mov\<close> is included for the
  folder \<^verbatim>\<open>/media/Movies2/x\<close>.
\<close>

theorem getScanLibrary_literal_prefix:
  assumes "L \<in> set (libraries t)"
  shows "((\<exists>libs. getScanLibrary t F = Inr libs \<and> L \<in> set libs) \<longleftrightarrow>
            length (Path L) \<le> length F \<and> (\<forall>i<length (Path L). F ! i = Path L ! i))
       \<and> (Path L = ''/media/Mov'' \<longrightarrow>
            (\<exists>libs. getScanLibrary t ''/media/Movies2/x'' = Inr libs \<and> L \<in> set libs))"
proof (intro conjI impI)
  show "(\<exists>libs. getScanLibrary t F = Inr libs \<and> L \<in> set libs) \<longleftrightarrow>
          length (Path L) \<le> length F \<and> (\<forall>i<length (Path L). F ! i = Path L ! i)"
    using assms by (simp add: getScanLibrary_member HasPrefix_bytes)
next
  assume "Path L = ''/media/Mov''"
  then have "HasPrefix ''/media/Movies2/x'' (Path L)"
    by (simp add: HasPrefix_def)
  with assms show "\<exists>libs. getScanLibrary t ''/media/Movies2/x'' = Inr libs \<and> L \<in> set libs"
    by (simp add: getScanLibrary_member)
qed

theorem getScanLibrary_literal_prefix_witness:
  "\<lparr>ID = 7, Name = ''Mov'', Path = ''/media/Mov''\<rparr>
      \<in> set (libraries (recording_target
            [\<lparr>ID = 1, Name = ''TV'', Path = ''/media/tv''\<rparr>,
             \<lparr>ID = 7, Name = ''Mov'', Path = ''/media/Mov''\<rparr>] (\<lambda>h c. None)))
   \<and> getScanLibrary (recording_target
            [\<lparr>ID = 1, Name = ''TV'', Path = ''/media/tv''\<rparr>,
             \<lparr>ID = 7, Name = ''Mov'', Path = ''/media/Mov''\<rparr>] (\<lambda>h c. None))
        ''/media/Movies2/x''
      = Inr [\<lparr>ID = 7, Name = ''Mov'', Path = ''/media/Mov''\<rparr>]"
  using getScanLibrary_literal_prefix
    [of "\<lparr>ID = 7, Name = ''Mov'', Path = ''/media/Mov''\<rparr>"
        "recording_target
            [\<lparr>ID = 1, Name = ''TV'', Path = ''/media/tv''\<rparr>,
             \<lparr>ID = 7, Name = ''Mov'', Path = ''/media/Mov''\<rparr>] (\<lambda>h c. None)"
        "''/media/Movies2/x''"]
  by (simp add: recording_target_def getScanLibrary_def HasPrefix_def)

text \<open>
  Claim C8, as amended. The claim states the test the wrong way round (the folder as a
  prefix of the library path). In the code a folder \<open>F\<close> resolves to a library \<open>L\<close> of
  the catalog if and only if the path of \<open>L\<close> is a literal string prefix of \<open>F\<close>, that
  is \<open>F\<close> is the path of \<open>L\<close> followed by any string at all (a match may end in the
  middle of a path segment).
\<close>

theorem folder_resolves_iff_path_is_prefix:
  assumes "L \<in> set (libraries t)"
  shows "(\<exists>libs. getScanLibrary t F = Inr libs \<and> L \<in> set libs) \<longleftrightarrow>
           (\<exists>rest. F = Path L @ rest)"
  using assms by (simp add: getScanLibrary_member HasPrefix_append)

theorem folder_resolves_iff_path_is_prefix_witness:
  "\<lparr>ID = 1, Name = ''Movies'', Path = ''/data/movies''\<rparr>
      \<in> set (libraries (recording_target
            [\<lparr>ID = 1, Name = ''Movies'', Path = ''/data/movies''\<rparr>,
             \<lparr>ID = 2, Name = ''TV'', Path = ''/data/tv''\<rparr>] (\<lambda>h c. None)))
   \<and> getScanLibrary (recording_target
            [\<lparr>ID = 1, Name = ''Movies'', Path = ''/data/movies''\<rparr>,
             \<lparr>ID = 2, Name = ''TV'', Path = ''/data/tv''\<rparr>] (\<lambda>h c. None))
        ''/data/movies/Inception (2010)''
      = Inr [\<lparr>ID = 1, Name = ''Movies'', Path = ''/data/movies''\<rparr>]
   \<and> ''/data/movies/Inception (2010)'' = ''/data/movies'' @ ''/Inception (2010)''"
  using folder_resolves_iff_path_is_prefix
    [of "\<lparr>ID = 1, Name = ''Movies'', Path = ''/data/movies''\<rparr>"
        "recording_target
            [\<lparr>ID = 1, Name = ''Movies'', Path = ''/data/movies''\<rparr>,
             \<lparr>ID = 2, Name = ''TV'', Path = ''/data/tv''\<rparr>] (\<lambda>h c. None)"
        "''/data/movies/Inception (2010)''"]
  by (simp add: recording_target_def getScanLibrary_def HasPrefix_def)

text \<open>
  The claim as stated fails in both directions. The folder
  \<^verbatim>\<open>/data/movies/Inception (2010)\<close> resolves to the library rooted at \<^verbatim>\<open>/data/movies\<close>
  although the folder is not a prefix of the library path; and the folder \<^verbatim>\<open>/data\<close> is a
  prefix of the library path but resolves to no library.
\<close>

theorem folder_prefix_of_path_counterexample:
  "getScanLibrary (recording_target
            [\<lparr>ID = 1, Name = ''Movies'', Path = ''/data/movies''\<rparr>] (\<lambda>h c. None))
        ''/data/movies/Inception (2010)''
      = Inr [\<lparr>ID = 1, Name = ''Movies'', Path = ''/data/movies''\<rparr>]
   \<and> \<not> HasPrefix ''/data/movies'' ''/data/movies/Inception (2010)''
   \<and> HasPrefix ''/data/movies'' ''/data''
   \<and> getScanLibrary (recording_target
            [\<lparr>ID = 1, Name = ''Movies'', Path = ''/data/movies''\<rparr>] (\<lambda>h c. None))
        ''/data''
      = Inl (Errorf ''%v: failed determining libraries'' [''/data''])"
  by (simp add: recording_target_def getScanLibrary_def HasPrefix_def)

subsection \<open>Scan dispatch\<close>

lemma Scan_loop_all_succeed:
  assumes "api_Scan (api t) = remote_Scan outcome"
      and "\<forall>j<length libs.
             outcome (h @ take j (map (\<lambda>l. (p, ID l)) libs)) (p, ID (libs ! j)) = None"
  shows "Scan_loop t p libs h = (None, h @ map (\<lambda>l. (p, ID l)) libs)"
  using assms(2)
proof (induction libs arbitrary: h)
  case Nil
  then show ?case by simp
next
  case (Cons l ls)
  from Cons.prems have first: "outcome h (p, ID l) = None"
    by force
  have "\<forall>j<length ls.
          outcome ((h @ [(p, ID l)]) @ take j (map (\<lambda>l. (p, ID l)) ls)) (p, ID (ls ! j)) = None"
  proof (intro allI impI)
    fix j assume "j < length ls"
    then have "Suc j < length (l # ls)" by simp
    with Cons.prems show
      "outcome ((h @ [(p, ID l)]) @ take j (map (\<lambda>l. (p, ID l)) ls)) (p, ID (ls ! j)) = None"
      by fastforce
  qed
  then have "Scan_loop t p ls (h @ [(p, ID l)])
               = (None, (h @ [(p, ID l)]) @ map (\<lambda>l. (p, ID l)) ls)"
    by (rule Cons.IH)
  with first show ?case
    by (simp add: assms(1) remote_Scan_def)
qed

lemma Scan_loop_first_failure:
  assumes "api_Scan (api t) = remote_Scan outcome"
      and "k < length libs"
      and "\<forall>j<k. outcome (h @ take j (map (\<lambda>l. (p, ID l)) libs)) (p, ID (libs ! j)) = None"
      and "outcome (h @ take k (map (\<lambda>l. (p, ID l)) libs)) (p, ID (libs ! k)) = Some e"
  shows "Scan_loop t p libs h = (Some e, h @ take (Suc k) (map (\<lambda>l. (p, ID l)) libs))"
  using assms(2-4)
proof (induction libs arbitrary: h k)
  case Nil
  then show ?case by simp
next
  case (Cons l ls)
  show ?case
  proof (cases k)
    case 0
    with Cons.prems show ?thesis
      by (simp add: assms(1) remote_Scan_def)
  next
    case (Suc k')
    with Cons.prems have first: "outcome h (p, ID l) = None"
      by force
    have len: "k' < length ls"
      using Cons.prems(1) Suc by simp
    have before: "\<forall>j<k'.
        outcome ((h @ [(p, ID l)]) @ take j (map (\<lambda>l. (p, ID l)) ls)) (p, ID (ls ! j)) = None"
    proof (intro allI impI)
      fix j assume "j < k'"
      then have "Suc j < k" using Suc by simp
      with Cons.prems(2) show
        "outcome ((h @ [(p, ID l)]) @ take j (map (\<lambda>l. (p, ID l)) ls)) (p, ID (ls ! j)) = None"
        by fastforce
    qed
    have at: "outcome ((h @ [(p, ID l)]) @ take k' (map (\<lambda>l. (p, ID l)) ls)) (p, ID (ls ! k'))
                = Some e"
      using Cons.prems(3) Suc by simp
    have "Scan_loop t p ls (h @ [(p, ID l)])
            = (Some e, (h @ [(p, ID l)]) @ take (Suc k') (map (\<lambda>l. (p, ID l)) ls))"
      using len before at by (rule Cons.IH)
    with first Suc show ?thesis
      by (simp add: assms(1) remote_Scan_def)
  qed
qed

lemma Scan_loop_success_history:
  assumes "api_Scan (api t) = remote_Scan outcome"
  shows "Scan_loop t p libs h = (None, h') \<Longrightarrow> h' = h @ map (\<lambda>l. (p, ID l)) libs"
proof (induction libs arbitrary: h)
  case Nil
  then show ?case by simp
next
  case (Cons l ls)
  from Cons.prems have "Scan_loop t p ls (h @ [(p, ID l)]) = (None, h')"
    by (simp add: assms remote_Scan_def split: option.splits)
  then have "h' = (h @ [(p, ID l)]) @ map (\<lambda>l. (p, ID l)) ls"
    by (rule Cons.IH)
  then show ?case by simp
qed

text \<open>
  Claim C2. Let the rewritten folder resolve to the libraries \<open>libs\<close>. These are the
  matching entries of the catalog, in catalog order, and \<open>Scan\<close> issues their triggers
  in that order: when every trigger succeeds, \<open>Scan\<close> returns success and exactly the
  triggers of \<open>libs\<close> have been issued; when the trigger of the library at position \<open>k\<close>
  is the first to return an error, \<open>Scan\<close> returns exactly that error and has issued the
  triggers of the libraries up to position \<open>k\<close> and none after it.
\<close>

theorem Scan_triggers_in_catalog_order:
  assumes "getScanLibrary t (rewrite t (Folder scan)) = Inr libs"
      and "api_Scan (api t) = remote_Scan outcome"
  shows "let F = rewrite t (Folder scan); calls = map (\<lambda>l. (F, ID l)) libs in
           libs = filter (\<lambda>l. HasPrefix F (Path l)) (libraries t)
         \<and> ((\<forall>j<length libs. outcome (h @ take j calls) (calls ! j) = None)
              \<longrightarrow> Scan t scan h = (None, h @ calls))
         \<and> (\<forall>k e. k < length libs
                \<and> (\<forall>j<k. outcome (h @ take j calls) (calls ! j) = None)
                \<and> outcome (h @ take k calls) (calls ! k) = Some e
              \<longrightarrow> Scan t scan h = (Some e, h @ take (Suc k) calls))"
proof -
  define F where "F = rewrite t (Folder scan)"
  define calls where "calls = map (\<lambda>l. (F, ID l)) libs"
  have res: "getScanLibrary t F = Inr libs"
    using assms(1) by (simp add: F_def)
  have run: "Scan t scan h = Scan_loop t F libs h"
    using res by (simp add: Scan_def F_def)
  have order: "libs = filter (\<lambda>l. HasPrefix F (Path l)) (libraries t)"
    using res by (simp add: getScanLibrary_Inr_iff)
  have ok: "Scan t scan h = (None, h @ calls)"
    if "\<forall>j<length libs. outcome (h @ take j calls) (calls ! j) = None"
  proof -
    from that have "\<forall>j<length libs.
        outcome (h @ take j (map (\<lambda>l. (F, ID l)) libs)) (F, ID (libs ! j)) = None"
      by (simp add: calls_def)
    with assms(2) show ?thesis
      unfolding run calls_def by (rule Scan_loop_all_succeed)
  qed
  have fail: "Scan t scan h = (Some e, h @ take (Suc k) calls)"
    if "k < length libs"
      and "\<forall>j<k. outcome (h @ take j calls) (calls ! j) = None"
      and "outcome (h @ take k calls) (calls ! k) = Some e" for k e
  proof -
    from that(1,2) have before: "\<forall>j<k.
        outcome (h @ take j (map (\<lambda>l. (F, ID l)) libs)) (F, ID (libs ! j)) = None"
      by (simp add: calls_def)
    from that(1,3) have at:
      "outcome (h @ take k (map (\<lambda>l. (F, ID l)) libs)) (F, ID (libs ! k)) = Some e"
      by (simp add: calls_def)
    from assms(2) that(1) before at show ?thesis
      unfolding run calls_def by (rule Scan_loop_first_failure)
  qed
  from order ok fail show ?thesis
    unfolding Let_def F_def [symmetric] calls_def [symmetric] by blast
qed

theorem Scan_triggers_in_catalog_order_witness:
  "Scan (recording_target example_catalog
           (\<lambda>h c. if length h = 1 then Some (LibError ''unavailable'' []) else None))
        \<lparr>Folder = ''/data/movies/kids/Up''\<rparr> []
     = (Some (LibError ''unavailable'' []),
        [(''/data/movies/kids/Up'', 1), (''/data/movies/kids/Up'', 3)])
   \<and> Scan (recording_target example_catalog (\<lambda>h c. None))
        \<lparr>Folder = ''/data/movies/kids/Up''\<rparr> []
     = (None,
        [(''/data/movies/kids/Up'', 1), (''/data/movies/kids/Up'', 3),
         (''/data/movies/kids/Up'', 4)])"
proof -
  let ?scan = "\<lparr>Folder = ''/data/movies/kids/Up''\<rparr>"
  let ?down = "\<lambda>(h :: (string \<times> nat) list) (c :: string \<times> nat).
                 if length h = 1 then Some (LibError ''unavailable'' []) else None"
  let ?up = "\<lambda>(h :: (string \<times> nat) list) (c :: string \<times> nat). None :: error option"
  let ?libs = "[\<lparr>ID = 1::nat, Name = ''Movies'', Path = ''/data/movies''\<rparr>,
                \<lparr>ID = 3, Name = ''Kids'', Path = ''/data/movies/kids''\<rparr>,
                \<lparr>ID = 4, Name = ''All'', Path = ''/data''\<rparr>]"
  have res: "getScanLibrary (recording_target example_catalog oc)
                (rewrite (recording_target example_catalog oc) (Folder ?scan)) = Inr ?libs" for oc
    by (simp add: recording_target_def example_catalog_def getScanLibrary_def HasPrefix_def)
  have api: "api_Scan (api (recording_target example_catalog oc)) = remote_Scan oc" for oc
    by (simp add: recording_target_def)
  note fail = Scan_triggers_in_catalog_order [OF res api, of ?down "[]", unfolded Let_def,
      THEN conjunct2, THEN conjunct2, rule_format, of 1 "LibError ''unavailable'' []"]
  note ok = Scan_triggers_in_catalog_order [OF res api, of ?up "[]", unfolded Let_def,
      THEN conjunct2, THEN conjunct1, rule_format]
  have "Scan (recording_target example_catalog ?down) ?scan []
     = (Some (LibError ''unavailable'' []),
        [] @ take (Suc 1) (map (\<lambda>l. (rewrite (recording_target example_catalog ?down)
                                        (Folder ?scan), ID l)) ?libs))"
    by (rule fail) (simp add: less_Suc_eq)
  moreover have "Scan (recording_target example_catalog ?up) ?scan []
     = (None,
        [] @ map (\<lambda>l. (rewrite (recording_target example_catalog ?up) (Folder ?scan), ID l))
               ?libs)"
    by (rule ok) simp
  ultimately show ?thesis
    by (simp add: recording_target_def)
qed

text \<open>
  Claim C4. When the rewritten folder matches no library of the catalog (an empty
  catalog included), resolution reports the no-match condition, and \<open>Scan\<close> returns
  success and leaves the world as it was: no call of the remote service is made,
  whatever the client is.
\<close>

theorem Scan_no_match_is_success:
  assumes "\<forall>l \<in> set (libraries t). \<not> HasPrefix (rewrite t (Folder scan)) (Path l)"
  shows "(\<exists>err. getScanLibrary t (rewrite t (Folder scan)) = Inl err)
       \<and> Scan t scan w = (None, w)"
proof -
  from assms have "filter (\<lambda>l. HasPrefix (rewrite t (Folder scan)) (Path l)) (libraries t) = []"
    by (simp add: filter_empty_conv)
  then obtain err where "getScanLibrary t (rewrite t (Folder scan)) = Inl err"
    using getScanLibrary_Inl_iff by blast
  then show ?thesis
    by (simp add: Scan_def)
qed

theorem Scan_no_match_is_success_witness:
  "Scan (recording_target example_catalog (\<lambda>h c. Some (LibError ''unavailable'' [])))
        \<lparr>Folder = ''/downloads/new''\<rparr> [(''/data/tv/Show'', 2)]
     = (None, [(''/data/tv/Show'', 2)])
   \<and> Scan (recording_target [] (\<lambda>h c. Some (LibError ''unavailable'' [])))
        \<lparr>Folder = ''/data/movies/Up''\<rparr> []
     = (None, [])"
  using Scan_no_match_is_success
    [of "recording_target example_catalog (\<lambda>h c. Some (LibError ''unavailable'' []))"
        "\<lparr>Folder = ''/downloads/new''\<rparr>" "[(''/data/tv/Show'', 2)]"]
    Scan_no_match_is_success
    [of "recording_target [] (\<lambda>h c. Some (LibError ''unavailable'' []))"
        "\<lparr>Folder = ''/data/movies/Up''\<rparr>" "[]"]
  by (simp add: recording_target_def example_catalog_def HasPrefix_def)

lemma Scan_loop_history_grows:
  assumes "api_Scan (api t) = remote_Scan outcome"
  shows "\<exists>more. snd (Scan_loop t p libs h) = h @ more"
proof (induction libs arbitrary: h)
  case Nil
  then show ?case by simp
next
  case (Cons l ls)
  show ?case
  proof (cases "outcome h (p, ID l)")
    case None
    obtain more where "snd (Scan_loop t p ls (h @ [(p, ID l)])) = (h @ [(p, ID l)]) @ more"
      using Cons.IH by blast
    with None show ?thesis
      by (simp add: assms remote_Scan_def)
  next
    case (Some e)
    then show ?thesis
      by (simp add: assms remote_Scan_def)
  qed
qed

lemma Scan_loop_issued_upto:
  assumes "api_Scan (api t) = remote_Scan outcome"
      and "i < length libs"
      and "\<forall>j<i. outcome (h @ take j (map (\<lambda>l. (p, ID l)) libs)) (p, ID (libs ! j)) = None"
  shows "take (length h + Suc i) (snd (Scan_loop t p libs h))
           = h @ take (Suc i) (map (\<lambda>l. (p, ID l)) libs)"
  using assms(2,3)
proof (induction libs arbitrary: h i)
  case Nil
  then show ?case by simp
next
  case (Cons l ls)
  show ?case
  proof (cases i)
    case 0
    obtain more where
      grows: "snd (Scan_loop t p ls (h @ [(p, ID l)])) = (h @ [(p, ID l)]) @ more"
      using Scan_loop_history_grows [OF assms(1)] by blast
    show ?thesis
    proof (cases "outcome h (p, ID l)")
      case None
      with 0 grows show ?thesis
        by (simp add: assms(1) remote_Scan_def)
    next
      case (Some e)
      with 0 show ?thesis
        by (simp add: assms(1) remote_Scan_def)
    qed
  next
    case (Suc i')
    with Cons.prems have first: "outcome h (p, ID l) = None"
      by force
    have len: "i' < length ls"
      using Cons.prems(1) Suc by simp
    have before: "\<forall>j<i'.
        outcome ((h @ [(p, ID l)]) @ take j (map (\<lambda>l. (p, ID l)) ls)) (p, ID (ls ! j)) = None"
    proof (intro allI impI)
      fix j assume "j < i'"
      then have "Suc j < i" using Suc by simp
      with Cons.prems(2) show
        "outcome ((h @ [(p, ID l)]) @ take j (map (\<lambda>l. (p, ID l)) ls)) (p, ID (ls ! j)) = None"
        by fastforce
    qed
    have "take (length (h @ [(p, ID l)]) + Suc i') (snd (Scan_loop t p ls (h @ [(p, ID l)])))
            = (h @ [(p, ID l)]) @ take (Suc i') (map (\<lambda>l. (p, ID l)) ls)"
      using len before by (rule Cons.IH)
    with first Suc show ?thesis
      by (simp add: assms(1) remote_Scan_def)
  qed
qed

text \<open>
  Claim C10, as amended. Nothing in this code checks that library paths are non-empty:
  construction keeps the catalog as the client returns it. When the catalog contains a
  library whose path is the empty string, resolving any folder (the empty one too)
  includes that library, so resolution never reports no-match; and every \<open>Scan\<close> call
  issues a trigger for it unless the trigger of a library resolved before it returns an
  error: whenever no trigger before a position of the resolved list fails, the triggers
  up to and including that position are issued, in order, whatever happens later (the
  claim says that every call issues the trigger).
\<close>

theorem empty_path_library_matches_every_folder:
  assumes "L \<in> set (libraries t)" and "Path L = ''''"
  shows "(\<exists>libs. getScanLibrary t F = Inr libs \<and> L \<in> set libs)
       \<and> (api_Scan (api t) = remote_Scan outcome \<longrightarrow>
            (\<exists>libs. getScanLibrary t (rewrite t (Folder scan)) = Inr libs \<and> L \<in> set libs
               \<and> (\<forall>i<length libs.
                     (\<forall>j<i. outcome
                              (h @ take j (map (\<lambda>l. (rewrite t (Folder scan), ID l)) libs))
                              (rewrite t (Folder scan), ID (libs ! j)) = None)
                     \<longrightarrow> take (length h + Suc i) (snd (Scan t scan h))
                           = h @ take (Suc i) (map (\<lambda>l. (rewrite t (Folder scan), ID l)) libs)
                         \<and> (libs ! i = L \<longrightarrow>
                              (rewrite t (Folder scan), ID L)
                                \<in> set (drop (length h) (snd (Scan t scan h)))))))
       \<and> (api_Version client w = (Inr version, w1) \<and> isSupportedVersion version
            \<and> api_Libraries client w1 = (Inr catalog, w2) \<longrightarrow>
            New_connect c rw client w
              = (Inr \<lparr>url = URL c, token = Token c, libraries = catalog,
                      rewrite = rw, api = client\<rparr>, w2))"
proof (intro conjI impI)
  have every: "HasPrefix folder (Path L)" for folder
    using assms(2) by (simp add: HasPrefix_def)
  with assms(1) show "\<exists>libs. getScanLibrary t F = Inr libs \<and> L \<in> set libs"
    by (simp add: getScanLibrary_member)
  show "New_connect c rw client w
          = (Inr \<lparr>url = URL c, token = Token c, libraries = catalog,
                  rewrite = rw, api = client\<rparr>, w2)"
    if "api_Version client w = (Inr version, w1) \<and> isSupportedVersion version
          \<and> api_Libraries client w1 = (Inr catalog, w2)"
    using that by (simp add: New_connect_def)
  assume api: "api_Scan (api t) = remote_Scan outcome"
  define p where "p = rewrite t (Folder scan)"
  from assms(1) every obtain libs where
    res: "getScanLibrary t p = Inr libs" and mem: "L \<in> set libs"
    using getScanLibrary_member by blast
  have run: "Scan t scan h = Scan_loop t p libs h"
    using res by (simp add: Scan_def p_def)
  have issued: "take (length h + Suc i) (snd (Scan t scan h))
                  = h @ take (Suc i) (map (\<lambda>l. (p, ID l)) libs)
                \<and> (libs ! i = L \<longrightarrow> (p, ID L) \<in> set (drop (length h) (snd (Scan t scan h))))"
    if i: "i < length libs"
      and ok: "\<forall>j<i. outcome (h @ take j (map (\<lambda>l. (p, ID l)) libs)) (p, ID (libs ! j)) = None"
    for i
  proof -
    have upto: "take (length h + Suc i) (snd (Scan t scan h))
                  = h @ take (Suc i) (map (\<lambda>l. (p, ID l)) libs)"
      unfolding run using api i ok by (rule Scan_loop_issued_upto)
    have "(p, ID (libs ! i)) \<in> set (take (Suc i) (map (\<lambda>l. (p, ID l)) libs))"
      using i by (simp add: take_Suc_conv_app_nth)
    then have "(p, ID (libs ! i)) \<in> set (drop (length h) (h @ take (Suc i) (map (\<lambda>l. (p, ID l)) libs)))"
      by simp
    then have "(p, ID (libs ! i))
        \<in> set (drop (length h) (take (length h + Suc i) (snd (Scan t scan h))))"
      by (simp only: upto)
    then have "(p, ID (libs ! i)) \<in> set (drop (length h) (snd (Scan t scan h)))"
      by (auto simp: drop_take dest: in_set_takeD)
    with upto show ?thesis by blast
  qed
  from res mem issued
  show "\<exists>libs. getScanLibrary t (rewrite t (Folder scan)) = Inr libs \<and> L \<in> set libs
               \<and> (\<forall>i<length libs.
                     (\<forall>j<i. outcome
                              (h @ take j (map (\<lambda>l. (rewrite t (Folder scan), ID l)) libs))
                              (rewrite t (Folder scan), ID (libs ! j)) = None)
                     \<longrightarrow> take (length h + Suc i) (snd (Scan t scan h))
                           = h @ take (Suc i) (map (\<lambda>l. (rewrite t (Folder scan), ID l)) libs)
                         \<and> (libs ! i = L \<longrightarrow>
                              (rewrite t (Folder scan), ID L)
                                \<in> set (drop (length h) (snd (Scan t scan h)))))"
    unfolding p_def by blast
qed
theorem empty_path_library_matches_every_folder_witness:
  "getScanLibrary
      (recording_target [\<lparr>ID = 2, Name = ''E'', Path = ''''\<rparr>,
                         \<lparr>ID = 1, Name = ''A'', Path = ''/a''\<rparr>]
         (\<lambda>h c. if length h = 1 then Some (LibError ''unavailable'' []) else None)) ''''
     = Inr [\<lparr>ID = 2, Name = ''E'', Path = ''''\<rparr>]
   \<and> Scan (recording_target [\<lparr>ID = 2, Name = ''E'', Path = ''''\<rparr>,
                             \<lparr>ID = 1, Name = ''A'', Path = ''/a''\<rparr>]
             (\<lambda>h c. if length h = 1 then Some (LibError ''unavailable'' []) else None))
        \<lparr>Folder = ''/a/x''\<rparr> []
     = (Some (LibError ''unavailable'' []), [(''/a/x'', 2), (''/a/x'', 1)])
   \<and> take (Suc 0)
        (snd (Scan (recording_target [\<lparr>ID = 2, Name = ''E'', Path = ''''\<rparr>,
                                      \<lparr>ID = 1, Name = ''A'', Path = ''/a''\<rparr>]
                      (\<lambda>h c. if length h = 1 then Some (LibError ''unavailable'' []) else None))
                \<lparr>Folder = ''/a/x''\<rparr> []))
     = [(''/a/x'', 2)]
   \<and> (case fst (New_connect example_config (\<lambda>p. p)
                   (api (recording_target [\<lparr>ID = 2, Name = ''E'', Path = ''''\<rparr>,
                                          \<lparr>ID = 1, Name = ''A'', Path = ''/a''\<rparr>]
                           (\<lambda>h c. if length h = 1 then Some (LibError ''unavailable'' [])
                                   else None)))
                   []) of
         Inl err \<Rightarrow> []
       | Inr made \<Rightarrow> libraries made)
     = [\<lparr>ID = 2, Name = ''E'', Path = ''''\<rparr>, \<lparr>ID = 1, Name = ''A'', Path = ''/a''\<rparr>]"
proof -
  let ?E = "\<lparr>ID = 2 :: nat, Name = ''E'', Path = ''''\<rparr>"
  let ?A = "\<lparr>ID = 1 :: nat, Name = ''A'', Path = ''/a''\<rparr>"
  let ?late = "\<lambda>(h :: (string \<times> nat) list) (c :: string \<times> nat).
                 if length h = 1 then Some (LibError ''unavailable'' []) else None"
  let ?t = "recording_target [?E, ?A] ?late"
  let ?scan = "\<lparr>Folder = ''/a/x''\<rparr>"
  have mem: "?E \<in> set (libraries ?t)" and empty: "Path ?E = ''''"
    by (simp_all add: recording_target_def)
  have api: "api_Scan (api ?t) = remote_Scan ?late"
    by (simp add: recording_target_def)
  have version: "api_Version (api ?t) [] = (Inr ''1.32.5'', [])
      \<and> isSupportedVersion ''1.32.5''
      \<and> api_Libraries (api ?t) [] = (Inr [?E, ?A], [])"
    by (simp add: recording_target_def isSupportedVersion_def Split.simps Atoi_def
        isDigit_def digit_def)
  note inst = empty_path_library_matches_every_folder [OF mem empty]
  note resolve = inst [THEN conjunct1, of "''''"]
  note trigger = inst [THEN conjunct2, THEN conjunct1, THEN mp, OF api, of ?scan "[]"]
  note kept = inst [THEN conjunct2, THEN conjunct2, THEN mp, OF version,
      of example_config "\<lambda>p. p"]
  have resolved: "getScanLibrary ?t (rewrite ?t (Folder ?scan)) = Inr [?E, ?A]"
    by (simp add: recording_target_def getScanLibrary_def HasPrefix_def)
  from trigger obtain libs where
    res: "getScanLibrary ?t (rewrite ?t (Folder ?scan)) = Inr libs"
    and upto: "\<forall>i<length libs.
        (\<forall>j<i. ?late ([] @ take j (map (\<lambda>l. (rewrite ?t (Folder ?scan), ID l)) libs))
                  (rewrite ?t (Folder ?scan), ID (libs ! j)) = None)
        \<longrightarrow> take (length ([] :: (string \<times> nat) list) + Suc i) (snd (Scan ?t ?scan []))
              = [] @ take (Suc i) (map (\<lambda>l. (rewrite ?t (Folder ?scan), ID l)) libs)
            \<and> (libs ! i = ?E \<longrightarrow>
                 (rewrite ?t (Folder ?scan), ID ?E)
                   \<in> set (drop (length ([] :: (string \<times> nat) list)) (snd (Scan ?t ?scan []))))"
    by blast
  from res resolved have libs: "libs = [?E, ?A]"
    by simp
  from upto [rule_format, of 0]
  have first: "take (Suc 0) (snd (Scan ?t ?scan [])) = [(''/a/x'', 2)]"
    by (simp add: libs recording_target_def)
  have "getScanLibrary ?t '''' = Inr [?E]"
    by (simp add: recording_target_def getScanLibrary_def HasPrefix_def)
  moreover have "Scan ?t ?scan []
      = (Some (LibError ''unavailable'' []), [(''/a/x'', 2), (''/a/x'', 1)])"
    by (simp add: recording_target_def getScanLibrary_def Scan_def HasPrefix_def
        remote_Scan_def Let_def)
  ultimately show ?thesis
    using resolve first kept by simp
qed
text \<open>
  The claim as stated fails when the trigger of an earlier matching library returns an
  error: the folder \<^verbatim>\<open>/a/x\<close> resolves to the library rooted at \<^verbatim>\<open>/a\<close> and to the library
  with the empty path, the first trigger fails, and no trigger is issued for the
  library with the empty path.
\<close>

theorem empty_path_library_not_triggered_counterexample:
  "getScanLibrary
      (recording_target [\<lparr>ID = 1, Name = ''A'', Path = ''/a''\<rparr>,
                         \<lparr>ID = 2, Name = ''E'', Path = ''''\<rparr>]
         (\<lambda>h c. Some (LibError ''unavailable'' []))) ''/a/x''
     = Inr [\<lparr>ID = 1, Name = ''A'', Path = ''/a''\<rparr>, \<lparr>ID = 2, Name = ''E'', Path = ''''\<rparr>]
   \<and> Scan (recording_target [\<lparr>ID = 1, Name = ''A'', Path = ''/a''\<rparr>,
                             \<lparr>ID = 2, Name = ''E'', Path = ''''\<rparr>]
             (\<lambda>h c. Some (LibError ''unavailable'' [])))
        \<lparr>Folder = ''/a/x''\<rparr> []
     = (Some (LibError ''unavailable'' []), [(''/a/x'', 1)])"
  by (simp add: recording_target_def getScanLibrary_def Scan_def HasPrefix_def
      remote_Scan_def Let_def)

subsection \<open>The version gate\<close>

lemma decimal_Nil [simp]: "decimal n [] = n"
  by (simp add: decimal_def)

lemma decimal_Cons [simp]: "decimal n (c # s) = decimal (n * 10 + digit c) s"
  by (simp add: decimal_def)

lemma decimal_mono: "n \<le> decimal n s"
proof (induction s arbitrary: n)
  case Nil
  then show ?case by simp
next
  case (Cons c s)
  have "n \<le> n * 10 + digit c" by simp
  also have "\<dots> \<le> decimal (n * 10 + digit c) s" by (rule Cons.IH)
  finally show ?case by simp
qed

lemma digit_le_9: "isDigit c \<Longrightarrow> digit c \<le> 9"
  unfolding isDigit_def digit_def by arith

lemma decimal_bound:
  "list_all isDigit s \<Longrightarrow> decimal n s < (n + 1) * 10 ^ length s"
proof (induction s arbitrary: n)
  case Nil
  then show ?case by simp
next
  case (Cons c s)
  then have d: "digit c \<le> 9" and rest: "list_all isDigit s"
    by (simp_all add: digit_le_9)
  have "decimal (n * 10 + digit c) s < (n * 10 + digit c + 1) * 10 ^ length s"
    using rest by (rule Cons.IH)
  also have "\<dots> \<le> ((n + 1) * 10) * 10 ^ length s"
    using d by (intro mult_right_mono) simp_all
  finally show ?case by (simp add: algebra_simps)
qed

lemma Atoi_fast_loop_eq:
  "Atoi_fast_loop n s = (if list_all isDigit s then Some (int (decimal (nat n) s)) else None)"
  if "0 \<le> n"
  using that
proof (induction s arbitrary: n)
  case Nil
  then show ?case by simp
next
  case (Cons c s)
  have "nat (n * 10 + int (digit c)) = nat n * 10 + digit c"
    using Cons.prems by (simp add: nat_add_distrib nat_mult_distrib)
  moreover have "0 \<le> n * 10 + int (digit c)"
    using Cons.prems by simp
  ultimately show ?case
    using Cons.IH [of "n * 10 + int (digit c)"] by simp
qed

lemma ParseUint_loop_eq:
  assumes "n \<le> maxUint64"
  shows "ParseUint_loop n s =
     (if decimal n (takeWhile isDigit s) > maxUint64 then (maxUint64, Some ErrRange)
      else if list_all isDigit s then (decimal n s, None)
      else (0, Some ErrSyntax))"
  using assms
proof (induction s arbitrary: n)
  case Nil
  then show ?case by simp
next
  case (Cons c s)
  show ?case
  proof (cases "isDigit c")
    case False
    with Cons.prems show ?thesis by simp
  next
    case True
    let ?n1 = "n * 10 + digit c"
    show ?thesis
    proof (cases "?n1 > maxUint64")
      case over: True
      have "?n1 \<le> decimal ?n1 (takeWhile isDigit s)" by (rule decimal_mono)
      with over have "decimal ?n1 (takeWhile isDigit s) > maxUint64" by simp
      with True over show ?thesis by (simp add: Let_def)
    next
      case fits: False
      then have "\<not> n \<ge> maxUint64 div 10 + 1"
        by (simp add: maxUint64_def)
      moreover from fits have "?n1 \<le> maxUint64" by simp
      ultimately show ?thesis
        using True fits Cons.IH [of ?n1] by (simp add: Let_def)
    qed
  qed
qed

lemma isDigit_not_sign: "isDigit c \<Longrightarrow> c \<noteq> CHR ''+'' \<and> c \<noteq> CHR ''-''"
  by (auto simp: isDigit_def)

lemma strip_sign_Cons:
  "strip_sign (c # r) = (if c = CHR ''+'' \<or> c = CHR ''-'' then r else c # r)"
  by (simp add: strip_sign_def)

lemma strip_sign_Nil [simp]: "strip_sign [] = []"
  by (simp add: strip_sign_def)

lemma length_strip_sign: "length (strip_sign s) \<le> length s"
  by (simp add: strip_sign_def)

lemma decimal_short:
  assumes "list_all isDigit s" and "length s \<le> 18"
  shows "decimal 0 s < 10 ^ 18"
proof -
  have "decimal 0 s < (0 + 1) * 10 ^ length s"
    using assms(1) by (rule decimal_bound)
  also have "\<dots> \<le> 10 ^ 18"
    using power_increasing [OF assms(2), of "10 :: nat"] by simp
  finally show ?thesis .
qed

lemma short_no_overflow:
  assumes "length s < 19"
  shows "\<not> digits_overflow s"
proof -
  let ?d = "takeWhile isDigit (strip_sign s)"
  have "list_all isDigit ?d"
    by (simp add: list_all_iff) (metis set_takeWhileD)
  moreover have "length ?d \<le> 18"
    using assms length_strip_sign [of s] length_takeWhile_le [of isDigit "strip_sign s"]
    by linarith
  ultimately have "decimal 0 ?d < 10 ^ 18"
    by (rule decimal_short)
  then show ?thesis
    by (simp add: digits_overflow_def maxUint64_def)
qed

lemma ParseInt_value:
  "fst (ParseInt s) =
     (if is_integer s then sat64 (parse_or_zero s)
      else if digits_overflow s then (if hd s = CHR ''-'' then - (2 ^ 63) else 2 ^ 63 - 1)
      else 0)"
proof (cases "s = []")
  case True
  then show ?thesis
    by (simp add: ParseInt_def is_integer_def digits_overflow_def)
next
  case False
  define s1 where "s1 = strip_sign s"
  define neg where "neg = (hd s = CHR ''-'')"
  have s1: "(if hd s = CHR ''+'' \<or> hd s = CHR ''-'' then tl s else s) = s1"
    using False by (simp add: s1_def strip_sign_def)
  have PI: "ParseUint s1 = (un, e) \<Longrightarrow> ParseInt s =
      (case e of
         Some ErrSyntax \<Rightarrow> (0, Some ErrSyntax)
       | _ \<Rightarrow>
           if \<not> neg \<and> un \<ge> 2 ^ 63 then (2 ^ 63 - 1, Some ErrRange)
           else if neg \<and> un > 2 ^ 63 then (- (2 ^ 63), Some ErrRange)
           else (if neg then - int un else int un, None))" for un e
    using False unfolding ParseInt_def s1 Let_def neg_def
    by (simp split: option.splits NumError.splits)
  have int_s: "is_integer s \<longleftrightarrow> s1 \<noteq> [] \<and> list_all isDigit s1"
    by (simp add: is_integer_def s1_def)
  have over_s: "digits_overflow s \<longleftrightarrow> decimal 0 (takeWhile isDigit s1) > maxUint64"
    by (simp add: digits_overflow_def s1_def)
  have val_s: "is_integer s \<Longrightarrow>
      parse_or_zero s = (if neg then - int (decimal 0 s1) else int (decimal 0 s1))"
    by (simp add: parse_or_zero_def s1_def neg_def)
  have loop: "ParseUint_loop 0 s1 =
     (if decimal 0 (takeWhile isDigit s1) > maxUint64 then (maxUint64, Some ErrRange)
      else if list_all isDigit s1 then (decimal 0 s1, None)
      else (0, Some ErrSyntax))"
    by (rule ParseUint_loop_eq) simp
  have all_take: "list_all isDigit s1 \<Longrightarrow> takeWhile isDigit s1 = s1"
    by (simp add: list_all_iff)
  show ?thesis
  proof (cases "s1 = []")
    case True
    then have "ParseUint s1 = (0, Some ErrSyntax)"
      by (simp add: ParseUint_def)
    then have "ParseInt s = (0, Some ErrSyntax)"
      by (simp add: PI)
    with True show ?thesis
      by (simp add: int_s over_s)
  next
    case ne: False
    then have PU: "ParseUint s1 = ParseUint_loop 0 s1"
      by (simp add: ParseUint_def)
    show ?thesis
    proof (cases "decimal 0 (takeWhile isDigit s1) > maxUint64")
      case over: True
      then have "ParseUint s1 = (maxUint64, Some ErrRange)"
        by (simp add: PU loop)
      then have res: "fst (ParseInt s) = (if neg then - (2 ^ 63) else 2 ^ 63 - 1)"
        by (simp add: PI maxUint64_def)
      show ?thesis
      proof (cases "is_integer s")
        case True
        then have "decimal 0 s1 > maxUint64"
          using over all_take int_s by simp
        then have "sat64 (parse_or_zero s) = (if neg then - (2 ^ 63) else 2 ^ 63 - 1)"
          using True by (simp add: val_s sat64_def maxUint64_def)
        with True res show ?thesis by simp
      next
        case False
        with res over show ?thesis
          by (simp add: over_s neg_def)
      qed
    next
      case fits: False
      show ?thesis
      proof (cases "list_all isDigit s1")
        case True
        then have is_int: "is_integer s"
          using ne by (simp add: int_s)
        have "ParseUint s1 = (decimal 0 s1, None)"
          using fits True by (simp add: PU loop)
        then have "fst (ParseInt s) =
            sat64 (if neg then - int (decimal 0 s1) else int (decimal 0 s1))"
          by (simp add: PI sat64_def)
        with is_int show ?thesis
          by (simp add: val_s)
      next
        case False
        then have "\<not> is_integer s"
          by (simp add: int_s)
        moreover have "ParseUint s1 = (0, Some ErrSyntax)"
          using fits False by (simp add: PU loop)
        then have "fst (ParseInt s) = 0"
          by (simp add: PI)
        ultimately show ?thesis
          using fits by (simp add: over_s)
      qed
    qed
  qed
qed

lemma Atoi_fast_value:
  assumes "0 < length s" and "length s < 19"
  shows "fst (Atoi s) = parse_or_zero s"
proof -
  define s1 where "s1 = strip_sign s"
  have ne: "s \<noteq> []" using assms(1) by auto
  have len: "length s1 \<le> 18"
    using assms(2) length_strip_sign [of s] by (simp add: s1_def)
  have AT: "Atoi s =
     (if s1 = [] then (0, Some ErrSyntax)
      else (case Atoi_fast_loop 0 s1 of
              None \<Rightarrow> (0, Some ErrSyntax)
            | Some n \<Rightarrow> (if hd s = CHR ''-'' then - n else n, None)))"
    using assms ne by (auto simp: Atoi_def s1_def strip_sign_def Let_def)
  have loop: "Atoi_fast_loop 0 s1 =
      (if list_all isDigit s1 then Some (int (decimal 0 s1)) else None)"
    using Atoi_fast_loop_eq [of 0 s1] by simp
  show ?thesis
    by (simp add: AT loop parse_or_zero_def is_integer_def s1_def [symmetric])
qed

lemma Atoi_value:
  "fst (Atoi s) =
     (if is_integer s then sat64 (parse_or_zero s)
      else if digits_overflow s then (if hd s = CHR ''-'' then - (2 ^ 63) else 2 ^ 63 - 1)
      else 0)"
proof (cases "0 < length s \<and> length s < 19")
  case True
  then have fast: "fst (Atoi s) = parse_or_zero s"
    by (simp add: Atoi_fast_value)
  have no: "\<not> digits_overflow s"
    using True by (simp add: short_no_overflow)
  show ?thesis
  proof (cases "is_integer s")
    case int: True
    then have "decimal 0 (strip_sign s) < 10 ^ 18"
      using True length_strip_sign [of s] by (intro decimal_short) (simp_all add: is_integer_def)
    then have "sat64 (parse_or_zero s) = parse_or_zero s"
      by (simp add: parse_or_zero_def sat64_def)
    with int fast show ?thesis by simp
  next
    case False
    with fast no show ?thesis
      by (simp add: parse_or_zero_def)
  qed
next
  case False
  then have "Atoi s = ParseInt s"
    by (auto simp: Atoi_def)
  then show ?thesis
    by (simp add: ParseInt_value)
qed

lemma Atoi_sat64: "fst (Atoi p) = sat64 (atoi_or_zero p)"
proof -
  have "sat64 0 = 0" and "sat64 (- (2 ^ 63)) = - (2 ^ 63)" and "sat64 (2 ^ 63 - 1) = 2 ^ 63 - 1"
    by (simp_all add: sat64_def)
  then show ?thesis
    by (simp add: Atoi_value atoi_or_zero_def parse_or_zero_def)
qed

lemma accept_sat64:
  "(sat64 a \<ge> 2 \<or> (sat64 a = 1 \<and> sat64 b \<ge> 20)) \<longleftrightarrow> (a \<ge> 2 \<or> (a = 1 \<and> b \<ge> 20))"
  by (auto simp: sat64_def)

lemma isSupportedVersion_atoi_or_zero:
  "isSupportedVersion version \<longleftrightarrow>
     (let parts = Split version (CHR ''.'')
      in 2 \<le> length parts
         \<and> (let major = atoi_or_zero (parts ! 0);
                minor = atoi_or_zero (parts ! 1)
            in major \<ge> 2 \<or> (major = 1 \<and> minor \<ge> 20)))"
  by (auto simp: isSupportedVersion_def Let_def Atoi_sat64 accept_sat64)

lemma isSupportedVersion_examples:
  "isSupportedVersion ''2.0.0'' \<and> isSupportedVersion ''1.20.0''
   \<and> \<not> isSupportedVersion ''1.19.9'' \<and> \<not> isSupportedVersion ''1''
   \<and> \<not> isSupportedVersion ''abc.def''"
  by (simp add: isSupportedVersion_def Split.simps Atoi_def isDigit_def digit_def)

lemma atoi_or_zero_plain:
  "is_integer p \<or> \<not> digits_overflow p \<Longrightarrow> atoi_or_zero p = parse_or_zero p"
  by (auto simp: atoi_or_zero_def)

lemma take2_mem:
  "2 \<le> length xs \<Longrightarrow> xs ! 0 \<in> set (take 2 xs) \<and> xs ! 1 \<in> set (take 2 xs)"
proof (cases xs)
  case Nil
  then show "2 \<le> length xs \<Longrightarrow> ?thesis" by simp
next
  case (Cons a ys)
  then show "2 \<le> length xs \<Longrightarrow> ?thesis"
    by (cases ys) (simp_all add: numeral_2_eq_2)
qed

text \<open>
  Claim C3, as amended. The version check accepts a version string if and only if
  splitting it on \<^verbatim>\<open>"."\<close> yields at least two components and, with the first two
  components read as integers, either \<open>major \<ge> 2\<close> or \<open>major = 1\<close> and \<open>minor \<ge> 20\<close>. A
  component that is not an integer is read as 0 and is no error, with one exception:
  a component that is not an integer but whose leading digits, after an optional sign,
  already exceed 64 bits is read as the bound of the 64-bit range on the side of its
  sign, because \<^verbatim>\<open>Atoi\<close> reports the overflow before it reaches the byte that is not a
  digit. Where no such component is among the first two, the check is the one the claim
  describes. \<^verbatim>\<open>"2.0.0"\<close> and \<^verbatim>\<open>"1.20.0"\<close> are supported; \<^verbatim>\<open>"1.19.9"\<close>, \<^verbatim>\<open>"1"\<close> and
  \<^verbatim>\<open>"abc.def"\<close> are not.
\<close>

theorem isSupportedVersion_best_effort:
  "(isSupportedVersion version \<longleftrightarrow>
      (let parts = Split version (CHR ''.'')
       in 2 \<le> length parts
          \<and> (let major = atoi_or_zero (parts ! 0);
                 minor = atoi_or_zero (parts ! 1)
             in major \<ge> 2 \<or> (major = 1 \<and> minor \<ge> 20))))
   \<and> ((\<forall>p \<in> set (take 2 (Split version (CHR ''.''))). is_integer p \<or> \<not> digits_overflow p)
        \<longrightarrow> isSupportedVersion version = spec_isSupportedVersion version)
   \<and> isSupportedVersion ''2.0.0'' \<and> isSupportedVersion ''1.20.0''
   \<and> \<not> isSupportedVersion ''1.19.9'' \<and> \<not> isSupportedVersion ''1''
   \<and> \<not> isSupportedVersion ''abc.def''"
proof -
  define parts where "parts = Split version (CHR ''.'')"
  have agree: "isSupportedVersion version = spec_isSupportedVersion version"
    if ok: "\<forall>p \<in> set (take 2 parts). is_integer p \<or> \<not> digits_overflow p"
  proof (cases "2 \<le> length parts")
    case True
    then have "parts ! 0 \<in> set (take 2 parts) \<and> parts ! 1 \<in> set (take 2 parts)"
      by (rule take2_mem)
    with ok have "is_integer (parts ! 0) \<or> \<not> digits_overflow (parts ! 0)"
      and "is_integer (parts ! 1) \<or> \<not> digits_overflow (parts ! 1)"
      by blast+
    then have "atoi_or_zero (parts ! 0) = parse_or_zero (parts ! 0)"
      and "atoi_or_zero (parts ! 1) = parse_or_zero (parts ! 1)"
      by (simp_all only: atoi_or_zero_plain)
    then show ?thesis
      by (simp add: isSupportedVersion_atoi_or_zero spec_isSupportedVersion_def
          parts_def [symmetric] Let_def)
  next
    case False
    then show ?thesis
      by (simp add: isSupportedVersion_atoi_or_zero spec_isSupportedVersion_def
          parts_def [symmetric] Let_def)
  qed
  have B: "(\<forall>p \<in> set (take 2 (Split version (CHR ''.''))). is_integer p \<or> \<not> digits_overflow p)
        \<longrightarrow> isSupportedVersion version = spec_isSupportedVersion version"
    using agree unfolding parts_def by (rule impI)
  show ?thesis
    by (rule conjI [OF isSupportedVersion_atoi_or_zero conjI [OF B isSupportedVersion_examples]])
qed

theorem isSupportedVersion_best_effort_witness:
  "isSupportedVersion ''1.32.5.7349-8f4248874''
     = spec_isSupportedVersion ''1.32.5.7349-8f4248874''
   \<and> spec_isSupportedVersion ''1.32.5.7349-8f4248874''"
proof -
  have parts: "Split ''1.32.5.7349-8f4248874'' (CHR ''.'')
                 = [''1'', ''32'', ''5'', ''7349-8f4248874'']"
    by (simp add: Split.simps)
  have "\<forall>p \<in> set (take 2 (Split ''1.32.5.7349-8f4248874'' (CHR ''.''))).
          is_integer p \<or> \<not> digits_overflow p"
    by (simp add: parts is_integer_def strip_sign_def isDigit_def)
  then have "isSupportedVersion ''1.32.5.7349-8f4248874''
               = spec_isSupportedVersion ''1.32.5.7349-8f4248874''"
    by (rule isSupportedVersion_best_effort
        [of "''1.32.5.7349-8f4248874''", THEN conjunct2, THEN conjunct1, THEN mp])
  moreover have "spec_isSupportedVersion ''1.32.5.7349-8f4248874''"
    by (simp add: spec_isSupportedVersion_def parts parse_or_zero_def is_integer_def
        strip_sign_def isDigit_def digit_def)
  ultimately show ?thesis by simp
qed

text \<open>
  The claim as stated fails at the version \<^verbatim>\<open>"18446744073709551616x.0"\<close>. Its first
  component is not an integer, so the claim reads it as 0 and rejects the version; the
  code reads it as the largest 64-bit integer (with a range error that is thrown away)
  and accepts the version.
\<close>

theorem isSupportedVersion_overflow_counterexample:
  "isSupportedVersion ''18446744073709551616x.0''
   \<and> \<not> spec_isSupportedVersion ''18446744073709551616x.0''
   \<and> \<not> is_integer ''18446744073709551616x''
   \<and> Atoi ''18446744073709551616x'' = (9223372036854775807, Some ErrRange)"
proof -
  have parts: "Split ''18446744073709551616x.0'' (CHR ''.'') = [''18446744073709551616x'', ''0'']"
    by (simp add: Split.simps)
  have major: "Atoi ''18446744073709551616x'' = (9223372036854775807, Some ErrRange)"
    by (simp add: Atoi_def ParseInt_def ParseUint_def isDigit_def digit_def maxUint64_def
        Let_def)
  have not_int: "\<not> is_integer ''18446744073709551616x''"
    by (simp add: is_integer_def strip_sign_def isDigit_def)
  have "isSupportedVersion ''18446744073709551616x.0''"
    by (simp add: isSupportedVersion_def parts major)
  moreover have "\<not> spec_isSupportedVersion ''18446744073709551616x.0''"
    by (simp add: spec_isSupportedVersion_def parts parse_or_zero_def is_integer_def
        strip_sign_def isDigit_def)
  ultimately show ?thesis
    using not_int major by simp
qed

subsection \<open>The timeout\<close>

lemma TrimSpace_asciiSpace:
  assumes "\<forall>ch \<in> set s. asciiSpace ch"
  shows "TrimSpace std s = ''''"
proof -
  from assms have blank: "dropWhile asciiSpace s = []"
    by simp
  show ?thesis
    unfolding TrimSpace_def blank by simp
qed

lemma parseTimeout_Inr_iff:
  "parseTimeout std raw = Inr d \<longleftrightarrow>
     (TrimSpace std raw = '''' \<and> d = 0)
     \<or> (TrimSpace std raw \<noteq> '''' \<and> ParseDuration std raw = Inr d \<and> 0 < d)"
  by (auto simp: parseTimeout_def split: sum.splits)

lemma parseTimeout_examples:
  "parseTimeout std '''' = Inr 0
   \<and> parseTimeout std ''5s'' = Inr 5000000000
   \<and> parseTimeout std ''0s''
       = Inl (Errorf ''invalid plex timeout %q: must be greater than zero'' [''0s''])
   \<and> parseTimeout std ''-1s''
       = Inl (Errorf ''invalid plex timeout %q: must be greater than zero'' [''-1s''])"
  by (simp add: parseTimeout_def TrimSpace_def asciiSpace_def RuneSelf_def ParseDuration_def
      ParseDuration_loop.simps ParseDuration_step_def isDigit_def digit_def unitMap_def Let_def)

text \<open>
  Claim C6, as amended. A blank timeout string (empty, or one that \<^verbatim>\<open>TrimSpace\<close> trims to
  the empty string) gives no timeout, the zero value, and no error. Any other string
  must parse as a strictly positive duration, which is then the timeout; otherwise
  \<open>parseTimeout\<close> returns an error. \<^verbatim>\<open>"5s"\<close> gives five seconds; \<^verbatim>\<open>"0s"\<close> and \<^verbatim>\<open>"-1s"\<close>
  are errors. (The claim says this of every non-empty string.)
\<close>

theorem parseTimeout_blank_or_positive:
  "(TrimSpace std raw = '''' \<longrightarrow> parseTimeout std raw = Inr 0)
   \<and> (TrimSpace std raw \<noteq> '''' \<longrightarrow>
        (\<forall>d. parseTimeout std raw = Inr d \<longleftrightarrow> ParseDuration std raw = Inr d \<and> 0 < d)
        \<and> ((\<exists>d. ParseDuration std raw = Inr d \<and> 0 < d) \<or> (\<exists>err. parseTimeout std raw = Inl err)))
   \<and> parseTimeout std '''' = Inr 0
   \<and> parseTimeout std ''5s'' = Inr 5000000000
   \<and> parseTimeout std ''0s''
       = Inl (Errorf ''invalid plex timeout %q: must be greater than zero'' [''0s''])
   \<and> parseTimeout std ''-1s''
       = Inl (Errorf ''invalid plex timeout %q: must be greater than zero'' [''-1s''])"
proof -
  have blank: "TrimSpace std raw = '''' \<longrightarrow> parseTimeout std raw = Inr 0"
    by (simp add: parseTimeout_def)
  have other: "TrimSpace std raw \<noteq> '''' \<longrightarrow>
        (\<forall>d. parseTimeout std raw = Inr d \<longleftrightarrow> ParseDuration std raw = Inr d \<and> 0 < d)
        \<and> ((\<exists>d. ParseDuration std raw = Inr d \<and> 0 < d) \<or> (\<exists>err. parseTimeout std raw = Inl err))"
  proof (intro impI conjI allI)
    fix d assume "TrimSpace std raw \<noteq> ''''"
    then show "parseTimeout std raw = Inr d \<longleftrightarrow> ParseDuration std raw = Inr d \<and> 0 < d"
      by (simp add: parseTimeout_Inr_iff)
  next
    assume nb: "TrimSpace std raw \<noteq> ''''"
    show "(\<exists>d. ParseDuration std raw = Inr d \<and> 0 < d) \<or> (\<exists>err. parseTimeout std raw = Inl err)"
    proof (cases "parseTimeout std raw")
      case (Inl err)
      then show ?thesis by blast
    next
      case (Inr d)
      with nb have "ParseDuration std raw = Inr d \<and> 0 < d"
        by (simp add: parseTimeout_Inr_iff)
      then show ?thesis by blast
    qed
  qed
  show ?thesis
    by (rule conjI [OF blank conjI [OF other parseTimeout_examples]])
qed

theorem parseTimeout_blank_or_positive_witness:
  "TrimSpace example_stdlib ''1h30m'' \<noteq> ''''
   \<and> ParseDuration example_stdlib ''1h30m'' = Inr 5400000000000
   \<and> parseTimeout example_stdlib ''1h30m'' = Inr 5400000000000
   \<and> TrimSpace example_stdlib ''  '' = ''''
   \<and> parseTimeout example_stdlib ''  '' = Inr 0"
proof -
  have nb: "TrimSpace example_stdlib ''1h30m'' \<noteq> ''''"
    by (simp add: TrimSpace_def asciiSpace_def RuneSelf_def)
  have pd: "ParseDuration example_stdlib ''1h30m'' = Inr 5400000000000"
    by (simp add: ParseDuration_def ParseDuration_loop.simps ParseDuration_step_def
        isDigit_def digit_def unitMap_def Let_def)
  have b: "TrimSpace example_stdlib ''  '' = ''''"
    by (simp add: TrimSpace_def asciiSpace_def)
  note thm1 = parseTimeout_blank_or_positive [of example_stdlib "''1h30m''",
      THEN conjunct2, THEN conjunct1, THEN mp, OF nb, THEN conjunct1, THEN spec,
      of 5400000000000]
  note thm2 = parseTimeout_blank_or_positive [of example_stdlib "''  ''",
      THEN conjunct1, THEN mp, OF b]
  from thm1 pd have "parseTimeout example_stdlib ''1h30m'' = Inr 5400000000000"
    by simp
  with nb pd b thm2 show ?thesis
    by simp
qed

text \<open>
  The claim as stated fails at the timeout string that is one space. It is not empty
  and it is not a duration, so the claim asks for an error; the code treats it as blank
  and returns no timeout and no error.
\<close>

theorem parseTimeout_space_counterexample:
  "'' '' \<noteq> ''''
   \<and> ParseDuration example_stdlib '' '' = Inl (invalid_duration '' '')
   \<and> parseTimeout example_stdlib '' '' = Inr 0"
  by (simp add: parseTimeout_def TrimSpace_def asciiSpace_def ParseDuration_def
      ParseDuration_loop.simps ParseDuration_step_def isDigit_def Let_def)

subsection \<open>Defaults of the configuration\<close>

lemma TrimSpace_empty [simp]: "TrimSpace std '''' = ''''"
  by (simp add: TrimSpace_def)

lemma TrimPrefix_append: "TrimPrefix (pre @ rest) pre = rest"
  by (simp add: TrimPrefix_def HasPrefix_def)

lemma New_connect_fields:
  assumes "URL c = URL c'" and "Token c = Token c'"
  shows "New_connect c rw client w = New_connect c' rw client w"
  using assms by (simp add: New_connect_def split: prod.splits sum.splits)

lemma New_blank_product:
  assumes "TrimSpace std s = ''''"
  shows "New col std (c\<lparr>Product := s\<rparr>) w = New col std (c\<lparr>Product := ''''\<rparr>) w"
  using assms
  by (simp add: New_def Let_def
      New_connect_fields [of "c\<lparr>Product := s\<rparr>" "c\<lparr>Product := ''''\<rparr>"]
      split: sum.splits)

lemma New_blank_clientIdentifier:
  assumes "TrimSpace std s = ''''"
  shows "New col std (c\<lparr>ClientIdentifier := s\<rparr>) w
           = New col std (c\<lparr>ClientIdentifier := ''''\<rparr>) w"
  using assms
  by (simp add: New_def Let_def
      New_connect_fields [of "c\<lparr>ClientIdentifier := s\<rparr>" "c\<lparr>ClientIdentifier := ''''\<rparr>"]
      split: sum.splits)

lemma New_blank_timeout:
  assumes "TrimSpace std s = ''''"
  shows "New col std (c\<lparr>Timeout := s\<rparr>) w = New col std (c\<lparr>Timeout := ''''\<rparr>) w"
  using assms
  by (simp add: New_def Let_def parseTimeout_def
      New_connect_fields [of "c\<lparr>Timeout := s\<rparr>" "c\<lparr>Timeout := ''''\<rparr>"]
      split: sum.splits)

lemma New_reaches_client:
  assumes "NewRewriter col (Rewrite c) = Inr rw"
      and "parseTimeout std (Timeout c) = Inr timeout"
  shows "New col std c w =
     New_connect c rw
       (newAPIClient col (URL c) (Token c) timeout
          (if TrimSpace std (Product c) = '''' then ''autoscan'' else Product c)
          (if TrimSpace std (ClientIdentifier c) = ''''
           then defaultClientIdentifier std (URL c) else ClientIdentifier c)) w"
  using assms by (simp add: New_def)

text \<open>
  Claim C9. A configuration string of white space only is treated as the empty string.
  A string of ASCII white space is trimmed to the empty string by \<^verbatim>\<open>TrimSpace\<close>; and for
  every string that \<^verbatim>\<open>TrimSpace\<close> trims to the empty string: as a timeout it gives no
  timeout and no error, as the empty string does; as product or client identifier it
  makes \<open>New\<close> behave as with the empty string, and \<open>New\<close> builds the client with the
  default product and the default client identifier.
\<close>

theorem whitespace_only_is_blank:
  "((\<forall>ch \<in> set s. asciiSpace ch) \<longrightarrow> TrimSpace std s = '''')
   \<and> (TrimSpace std s = '''' \<longrightarrow>
         parseTimeout std s = Inr 0
       \<and> parseTimeout std s = parseTimeout std ''''
       \<and> New col std (c\<lparr>Timeout := s\<rparr>) w = New col std (c\<lparr>Timeout := ''''\<rparr>) w
       \<and> New col std (c\<lparr>Product := s\<rparr>) w = New col std (c\<lparr>Product := ''''\<rparr>) w
       \<and> New col std (c\<lparr>ClientIdentifier := s\<rparr>) w
           = New col std (c\<lparr>ClientIdentifier := ''''\<rparr>) w
       \<and> (\<forall>rw timeout.
             NewRewriter col (Rewrite c) = Inr rw \<and> parseTimeout std (Timeout c) = Inr timeout
             \<longrightarrow> New col std (c\<lparr>Product := s, ClientIdentifier := s\<rparr>) w
                 = New_connect (c\<lparr>Product := s, ClientIdentifier := s\<rparr>) rw
                     (newAPIClient col (URL c) (Token c) timeout ''autoscan''
                        (defaultClientIdentifier std (URL c))) w))"
proof (intro conjI impI allI)
  assume "\<forall>ch \<in> set s. asciiSpace ch"
  then show "TrimSpace std s = ''''"
    by (rule TrimSpace_asciiSpace)
next
  assume blank: "TrimSpace std s = ''''"
  then show "parseTimeout std s = Inr 0"
    by (simp add: parseTimeout_def)
  from blank show "parseTimeout std s = parseTimeout std ''''"
    by (simp add: parseTimeout_def)
  from blank show "New col std (c\<lparr>Timeout := s\<rparr>) w = New col std (c\<lparr>Timeout := ''''\<rparr>) w"
    by (rule New_blank_timeout)
  from blank show "New col std (c\<lparr>Product := s\<rparr>) w = New col std (c\<lparr>Product := ''''\<rparr>) w"
    by (rule New_blank_product)
  from blank show "New col std (c\<lparr>ClientIdentifier := s\<rparr>) w
           = New col std (c\<lparr>ClientIdentifier := ''''\<rparr>) w"
    by (rule New_blank_clientIdentifier)
next
  fix rw timeout
  assume blank: "TrimSpace std s = ''''"
    and "NewRewriter col (Rewrite c) = Inr rw \<and> parseTimeout std (Timeout c) = Inr timeout"
  then have "NewRewriter col (Rewrite (c\<lparr>Product := s, ClientIdentifier := s\<rparr>)) = Inr rw"
    and "parseTimeout std (Timeout (c\<lparr>Product := s, ClientIdentifier := s\<rparr>)) = Inr timeout"
    by simp_all
  then have "New col std (c\<lparr>Product := s, ClientIdentifier := s\<rparr>) w =
     New_connect (c\<lparr>Product := s, ClientIdentifier := s\<rparr>) rw
       (newAPIClient col (URL (c\<lparr>Product := s, ClientIdentifier := s\<rparr>))
          (Token (c\<lparr>Product := s, ClientIdentifier := s\<rparr>)) timeout
          (if TrimSpace std (Product (c\<lparr>Product := s, ClientIdentifier := s\<rparr>)) = ''''
           then ''autoscan'' else Product (c\<lparr>Product := s, ClientIdentifier := s\<rparr>))
          (if TrimSpace std (ClientIdentifier (c\<lparr>Product := s, ClientIdentifier := s\<rparr>)) = ''''
           then defaultClientIdentifier std (URL (c\<lparr>Product := s, ClientIdentifier := s\<rparr>))
           else ClientIdentifier (c\<lparr>Product := s, ClientIdentifier := s\<rparr>))) w"
    by (rule New_reaches_client)
  with blank show "New col std (c\<lparr>Product := s, ClientIdentifier := s\<rparr>) w
                 = New_connect (c\<lparr>Product := s, ClientIdentifier := s\<rparr>) rw
                     (newAPIClient col (URL c) (Token c) timeout ''autoscan''
                        (defaultClientIdentifier std (URL c))) w"
    by simp
qed

theorem whitespace_only_is_blank_witness:
  "TrimSpace example_stdlib [CHR '' '', CHR 0x09, CHR 0x0A] = ''''
   \<and> parseTimeout example_stdlib [CHR '' '', CHR 0x09, CHR 0x0A] = Inr 0
   \<and> New (example_collaborators ''1.32.5'' example_catalog) example_stdlib
         (example_config\<lparr>Product := [CHR '' '', CHR 0x09, CHR 0x0A]\<rparr>) []
       = New (example_collaborators ''1.32.5'' example_catalog) example_stdlib
           (example_config\<lparr>Product := ''''\<rparr>) []
   \<and> New (example_collaborators ''1.32.5'' example_catalog) example_stdlib
         (example_config\<lparr>ClientIdentifier := [CHR '' '', CHR 0x09, CHR 0x0A]\<rparr>) []
       = New (example_collaborators ''1.32.5'' example_catalog) example_stdlib
           (example_config\<lparr>ClientIdentifier := ''''\<rparr>) []"
proof -
  have ws: "\<forall>ch \<in> set [CHR '' '', CHR 0x09, CHR 0x0A]. asciiSpace ch"
    by (simp add: asciiSpace_def)
  note blank = whitespace_only_is_blank
    [of "[CHR '' '', CHR 0x09, CHR 0x0A]" example_stdlib, THEN conjunct1, THEN mp, OF ws]
  note same = whitespace_only_is_blank
    [of "[CHR '' '', CHR 0x09, CHR 0x0A]" example_stdlib
        "example_collaborators ''1.32.5'' example_catalog" example_config "[]",
     THEN conjunct2, THEN mp, OF blank]
  from blank same show ?thesis
    by simp
qed

text \<open>
  Claim C7. The default client identifier is a function of the configured URL alone.
  When the URL does not parse, or parses with a host that is empty or is only \<^verbatim>\<open>www.\<close>,
  it is the constant \<^verbatim>\<open>autoscan\<close>. Otherwise it is \<^verbatim>\<open>autoscan-\<close> followed by the host (the
  port included, as \<^verbatim>\<open>url.Parse\<close> gives it) with one leading \<^verbatim>\<open>www.\<close> taken off; for
  \<^verbatim>\<open>https://www.example.com:32400\<close> it is \<^verbatim>\<open>autoscan-example.com:32400\<close>. And when the
  configured client identifier is blank, \<open>New\<close> builds the client with this default.
\<close>

theorem defaultClientIdentifier_from_host:
  "(\<forall>err. url_Parse std rawURL = Inl err
       \<longrightarrow> defaultClientIdentifier std rawURL = ''autoscan'')
   \<and> (\<forall>parsed. url_Parse std rawURL = Inr parsed
          \<and> (Host parsed = '''' \<or> Host parsed = ''www.'')
       \<longrightarrow> defaultClientIdentifier std rawURL = ''autoscan'')
   \<and> (\<forall>parsed host. url_Parse std rawURL = Inr parsed \<and> Host parsed = ''www.'' @ host
          \<and> host \<noteq> ''''
       \<longrightarrow> defaultClientIdentifier std rawURL = ''autoscan-'' @ host)
   \<and> (\<forall>parsed. url_Parse std rawURL = Inr parsed \<and> Host parsed \<noteq> ''''
          \<and> \<not> HasPrefix (Host parsed) ''www.''
       \<longrightarrow> defaultClientIdentifier std rawURL = ''autoscan-'' @ Host parsed)
   \<and> (\<forall>parsed. url_Parse std ''https://www.example.com:32400'' = Inr parsed
          \<and> Host parsed = ''www.example.com:32400''
       \<longrightarrow> defaultClientIdentifier std ''https://www.example.com:32400''
           = ''autoscan-example.com:32400'')
   \<and> (\<forall>rw timeout. TrimSpace std (ClientIdentifier c) = ''''
          \<and> NewRewriter col (Rewrite c) = Inr rw
          \<and> parseTimeout std (Timeout c) = Inr timeout
       \<longrightarrow> New col std c w
           = New_connect c rw
               (newAPIClient col (URL c) (Token c) timeout
                  (if TrimSpace std (Product c) = '''' then ''autoscan'' else Product c)
                  (defaultClientIdentifier std (URL c))) w)"
proof (intro conjI allI impI)
  fix err assume "url_Parse std rawURL = Inl err"
  then show "defaultClientIdentifier std rawURL = ''autoscan''"
    by (simp add: defaultClientIdentifier_def)
next
  fix parsed
  assume "url_Parse std rawURL = Inr parsed \<and> (Host parsed = '''' \<or> Host parsed = ''www.'')"
  then show "defaultClientIdentifier std rawURL = ''autoscan''"
    by (auto simp: defaultClientIdentifier_def TrimPrefix_def HasPrefix_def)
next
  fix parsed host
  assume "url_Parse std rawURL = Inr parsed \<and> Host parsed = ''www.'' @ host \<and> host \<noteq> ''''"
  then show "defaultClientIdentifier std rawURL = ''autoscan-'' @ host"
    by (simp add: defaultClientIdentifier_def TrimPrefix_def HasPrefix_def Let_def)
next
  fix parsed
  assume "url_Parse std rawURL = Inr parsed \<and> Host parsed \<noteq> ''''
            \<and> \<not> HasPrefix (Host parsed) ''www.''"
  then show "defaultClientIdentifier std rawURL = ''autoscan-'' @ Host parsed"
    by (simp add: defaultClientIdentifier_def TrimPrefix_def Let_def)
next
  fix parsed
  assume "url_Parse std ''https://www.example.com:32400'' = Inr parsed
            \<and> Host parsed = ''www.example.com:32400''"
  then show "defaultClientIdentifier std ''https://www.example.com:32400''
               = ''autoscan-example.com:32400''"
    by (simp add: defaultClientIdentifier_def TrimPrefix_def HasPrefix_def Let_def)
next
  fix rw timeout
  assume "TrimSpace std (ClientIdentifier c) = ''''
            \<and> NewRewriter col (Rewrite c) = Inr rw
            \<and> parseTimeout std (Timeout c) = Inr timeout"
  then show "New col std c w
           = New_connect c rw
               (newAPIClient col (URL c) (Token c) timeout
                  (if TrimSpace std (Product c) = '''' then ''autoscan'' else Product c)
                  (defaultClientIdentifier std (URL c))) w"
    by (simp add: New_reaches_client)
qed

theorem defaultClientIdentifier_from_host_witness:
  "defaultClientIdentifier example_stdlib ''https://www.example.com:32400''
     = ''autoscan-example.com:32400''
   \<and> defaultClientIdentifier example_stdlib ''http://localhost:32400''
     = ''autoscan-localhost:32400''
   \<and> defaultClientIdentifier example_stdlib ''plex'' = ''autoscan''
   \<and> defaultClientIdentifier example_stdlib ''http://www.'' = ''autoscan''
   \<and> defaultClientIdentifier example_stdlib '':'' = ''autoscan''
   \<and> New (example_collaborators ''1.32.5'' example_catalog) example_stdlib example_config []
     = New_connect example_config (\<lambda>p. p)
         (newAPIClient (example_collaborators ''1.32.5'' example_catalog)
            ''https://www.example.com:32400'' ''token'' 5000000000 ''autoscan''
            ''autoscan-example.com:32400'') []"
proof -
  note www = defaultClientIdentifier_from_host
    [of example_stdlib "''https://www.example.com:32400''",
     THEN conjunct2, THEN conjunct2, THEN conjunct2, THEN conjunct2, THEN conjunct1,
     THEN spec, of "\<lparr>Host = ''www.example.com:32400''\<rparr>", THEN mp]
  note plain = defaultClientIdentifier_from_host
    [of example_stdlib "''http://localhost:32400''",
     THEN conjunct2, THEN conjunct2, THEN conjunct2, THEN conjunct1,
     THEN spec, of "\<lparr>Host = ''localhost:32400''\<rparr>", THEN mp]
  note nohost = defaultClientIdentifier_from_host
    [of example_stdlib "''plex''", THEN conjunct2, THEN conjunct1,
     THEN spec, of "\<lparr>Host = ''''\<rparr>", THEN mp]
  note onlywww = defaultClientIdentifier_from_host
    [of example_stdlib "''http://www.''", THEN conjunct2, THEN conjunct1,
     THEN spec, of "\<lparr>Host = ''www.''\<rparr>", THEN mp]
  note bad = defaultClientIdentifier_from_host
    [of example_stdlib "'':''", THEN conjunct1,
     THEN spec, of "LibError ''parse: missing protocol scheme'' ['':'']", THEN mp]
  note new = defaultClientIdentifier_from_host
    [of example_stdlib _ example_config "example_collaborators ''1.32.5'' example_catalog" "[]",
     THEN conjunct2, THEN conjunct2, THEN conjunct2, THEN conjunct2, THEN conjunct2,
     THEN spec, THEN spec, of "\<lambda>p. p" 5000000000, THEN mp]
  have a: "defaultClientIdentifier example_stdlib ''https://www.example.com:32400''
             = ''autoscan-example.com:32400''"
    by (rule www) (simp add: example_stdlib_def)
  have b: "defaultClientIdentifier example_stdlib ''http://localhost:32400''
             = ''autoscan-'' @ Host \<lparr>Host = ''localhost:32400''\<rparr>"
    by (rule plain) (simp add: example_stdlib_def HasPrefix_def)
  have c: "defaultClientIdentifier example_stdlib ''plex'' = ''autoscan''"
    by (rule nohost) (simp add: example_stdlib_def)
  have c': "defaultClientIdentifier example_stdlib ''http://www.'' = ''autoscan''"
    by (rule onlywww) (simp add: example_stdlib_def)
  have d: "defaultClientIdentifier example_stdlib '':'' = ''autoscan''"
    by (rule bad) (simp add: example_stdlib_def)
  have timeout: "parseTimeout example_stdlib ''5s'' = Inr 5000000000"
    using parseTimeout_examples [of example_stdlib] by simp
  have e: "New (example_collaborators ''1.32.5'' example_catalog) example_stdlib example_config []
     = New_connect example_config (\<lambda>p. p)
         (newAPIClient (example_collaborators ''1.32.5'' example_catalog)
            (URL example_config) (Token example_config) 5000000000
            (if TrimSpace example_stdlib (Product example_config) = '''' then ''autoscan''
             else Product example_config)
            (defaultClientIdentifier example_stdlib (URL example_config))) []"
    by (rule new) (simp add: example_config_def example_collaborators_def timeout)
  have url: "URL example_config = ''https://www.example.com:32400''"
    and tok: "Token example_config = ''token''"
    and prod: "Product example_config = ''''"
    by (simp_all add: example_config_def)
  from a b c c' d e show ?thesis
    by (simp add: url tok prod)
qed

text \<open>
  Claim C5. When construction reaches the version query and the remote service reports
  a version the gate does not support, \<open>New\<close> returns no target but an error that wraps
  \<^verbatim>\<open>autoscan.ErrFatal\<close>, so it differs from every error that is not tagged fatal; the
  catalog is not fetched.
\<close>

theorem New_unsupported_version_is_fatal:
  assumes "NewRewriter col (Rewrite c) = Inr rw"
      and "parseTimeout std (Timeout c) = Inr timeout"
      and "api_Version
             (newAPIClient col (URL c) (Token c) timeout
                (if TrimSpace std (Product c) = '''' then ''autoscan'' else Product c)
                (if TrimSpace std (ClientIdentifier c) = ''''
                 then defaultClientIdentifier std (URL c) else ClientIdentifier c)) w
           = (Inr version, w1)"
      and "\<not> isSupportedVersion version"
  shows "New col std c w
           = (Inl (Errorf_w ''plex running unsupported version %s: %w'' [version] ErrFatal), w1)
       \<and> (\<exists>err. fst (New col std c w) = Inl err \<and> errors_Is err ErrFatal)
       \<and> (\<forall>e. \<not> errors_Is e ErrFatal \<longrightarrow> fst (New col std c w) \<noteq> Inl e)"
proof -
  have "New col std c w
          = (Inl (Errorf_w ''plex running unsupported version %s: %w'' [version] ErrFatal), w1)"
    using assms by (simp add: New_reaches_client New_connect_def)
  then show ?thesis
    by auto
qed

theorem New_unsupported_version_is_fatal_witness:
  "New (example_collaborators ''1.19.9'' example_catalog) example_stdlib example_config []
     = (Inl (Errorf_w ''plex running unsupported version %s: %w'' [''1.19.9''] ErrFatal), [])
   \<and> errors_Is (Errorf_w ''plex running unsupported version %s: %w'' [''1.19.9''] ErrFatal)
        ErrFatal"
proof -
  have rw: "NewRewriter (example_collaborators ''1.19.9'' example_catalog)
              (Rewrite example_config) = Inr (\<lambda>p. p)"
    by (simp add: example_collaborators_def)
  have timeout: "parseTimeout example_stdlib (Timeout example_config) = Inr 5000000000"
    using parseTimeout_examples [of example_stdlib] by (simp add: example_config_def)
  have version: "api_Version
             (newAPIClient (example_collaborators ''1.19.9'' example_catalog)
                (URL example_config) (Token example_config) 5000000000
                (if TrimSpace example_stdlib (Product example_config) = '''' then ''autoscan''
                 else Product example_config)
                (if TrimSpace example_stdlib (ClientIdentifier example_config) = ''''
                 then defaultClientIdentifier example_stdlib (URL example_config)
                 else ClientIdentifier example_config)) []
           = (Inr ''1.19.9'', [])"
    by (simp add: example_collaborators_def)
  have old: "\<not> isSupportedVersion ''1.19.9''"
    using isSupportedVersion_examples by simp
  from New_unsupported_version_is_fatal [OF rw timeout version old]
  show ?thesis
    by simp
qed

end
